theory Spec2Isabelle
  imports Main "HOL-Library.Sublist" "HOL-Library.Multiset"
begin

section \<open>Go runtime values used by the checker\<close>

text \<open>
  A Go panic or \<open>os.Exit\<close> ends the whole process; the model returns it on the left of
  a sum. \<open>TypeAssertionPanic\<close> is the runtime error of a failed one-result type
  assertion \<open>x.(T)\<close>, \<open>IndexOutOfRange\<close> the runtime error of \<open>xs[i]\<close> with
  \<open>i \<ge> len(xs)\<close>, \<open>Panic msg\<close> an explicit \<open>panic(msg)\<close>.
\<close>

datatype abort = Panic string | TypeAssertionPanic string | IndexOutOfRange nat nat | Exit int

subsection \<open>time.Time and time.Duration\<close>

text \<open>
  A \<open>time.Time\<close> without monotonic clock reading is seconds, nanoseconds and a location
  pointer; Go's \<open>==\<close> on \<open>time.Time\<close> compares all three. \<open>time.UTC\<close> is stored as the
  nil location; a time parsed with a numeric zone offset carries \<open>time.Local\<close> or a
  fabricated fixed zone. A \<open>time.Duration\<close> is an int64 count of nanoseconds.
\<close>

datatype Location = UTC | Local | FixedZone string int

record Time =
  unixSec :: int
  nsec :: int
  loc :: Location

type_synonym Duration = int

definition Nanosecond :: Duration where "Nanosecond = 1"
definition Second :: Duration where "Second = 1000000000 * Nanosecond"
definition Minute :: Duration where "Minute = 60 * Second"
definition Hour :: Duration where "Hour = 60 * Minute"

definition maxDuration :: Duration where "maxDuration = 2 ^ 63 - 1"
definition minDuration :: Duration where "minDuration = - (2 ^ 63)"

text \<open>
  \<open>t.Sub(u)\<close>: the difference \<open>t - u\<close>; when it does not fit a Duration the maximum
  (or minimum) Duration is returned.
\<close>

definition Time_Sub :: "Time \<Rightarrow> Time \<Rightarrow> Duration" where
  "Time_Sub t u =
     (let d = (unixSec t - unixSec u) * Second + (nsec t - nsec u)
      in if d > maxDuration then maxDuration
         else if d < minDuration then minDuration
         else d)"

text \<open>Days between 1970-01-01 and a date of the proleptic Gregorian calendar.\<close>

definition days_from_civil :: "int \<Rightarrow> int \<Rightarrow> int \<Rightarrow> int" where
  "days_from_civil y m d =
     (let y' = (if m \<le> 2 then y - 1 else y);
          era = y' div 400;
          yoe = y' - era * 400;
          doy = (153 * (if m > 2 then m - 3 else m + 9) + 2) div 5 + d - 1;
          doe = yoe * 365 + yoe div 4 - yoe div 100 + doy
      in era * 146097 + doe - 719468)"

text \<open>\<open>time.Date(year, month, day, hour, min, sec, nsec, loc)\<close> for in-range arguments
  and a location of offset 0.\<close>

definition time_Date :: "int \<Rightarrow> int \<Rightarrow> int \<Rightarrow> int \<Rightarrow> int \<Rightarrow> int \<Rightarrow> int \<Rightarrow> Location \<Rightarrow> Time" where
  "time_Date y m d hh mm ss ns l =
     \<lparr>unixSec = days_from_civil y m d * 86400 + hh * 3600 + mm * 60 + ss, nsec = ns, loc = l\<rparr>"

definition December :: int where "December = 12"

subsection \<open>slices and strings\<close>

text \<open>\<open>slices.Index(s, v)\<close>: the index of the first occurrence of \<open>v\<close>, or \<open>-1\<close>.\<close>

fun slices_Index_from :: "nat \<Rightarrow> 'a list \<Rightarrow> 'a \<Rightarrow> int" where
  "slices_Index_from i [] v = - 1"
| "slices_Index_from i (x # xs) v = (if v = x then int i else slices_Index_from (Suc i) xs v)"

definition slices_Index :: "'a list \<Rightarrow> 'a \<Rightarrow> int" where
  "slices_Index s v = slices_Index_from 0 s v"

definition slices_Contains :: "'a list \<Rightarrow> 'a \<Rightarrow> bool" where
  "slices_Contains s v = (slices_Index s v \<ge> 0)"

text \<open>
  \<open>strings.Replace(s, old, new, n)\<close> for a non-empty \<open>old\<close> and \<open>n \<ge> 0\<close>: the first
  \<open>n\<close> non-overlapping occurrences of \<open>old\<close> are replaced by \<open>new\<close>, left to right.
\<close>

function strings_Replace :: "string \<Rightarrow> string \<Rightarrow> string \<Rightarrow> nat \<Rightarrow> string" where
  "strings_Replace [] old new n = []"
| "strings_Replace (c # cs) old new n =
     (if n = 0 \<or> old = [] then c # cs
      else if prefix old (c # cs)
        then new @ strings_Replace (drop (length old) (c # cs)) old new (n - 1)
        else c # strings_Replace cs old new n)"
  by pat_completeness auto
termination
  by (relation "measure (\<lambda>(s, old, new, n). length s)") (auto simp: neq_Nil_conv)

text \<open>
  \<open>strings.SplitAfter(s, sep)\<close> for a non-empty \<open>sep\<close>: \<open>s\<close> cut after each
  occurrence of \<open>sep\<close>; the pieces concatenate to \<open>s\<close>. The accumulator holds the
  current piece reversed.
\<close>

function SplitAfter_from :: "string \<Rightarrow> string \<Rightarrow> string \<Rightarrow> string list" where
  "SplitAfter_from acc [] sep = [rev acc]"
| "SplitAfter_from acc (c # cs) sep =
     (if sep \<noteq> [] \<and> prefix sep (c # cs)
        then (rev acc @ sep) # SplitAfter_from [] (drop (length sep) (c # cs)) sep
        else SplitAfter_from (c # acc) cs sep)"
  by pat_completeness auto
termination
  by (relation "measure (\<lambda>(acc, s, sep). length s)") (auto simp: neq_Nil_conv)

definition strings_SplitAfter :: "string \<Rightarrow> string \<Rightarrow> string list" where
  "strings_SplitAfter s sep = SplitAfter_from [] s sep"

text \<open>\<open>N.BitLen()\<close> of a \<open>big.Int\<close>: the length of the absolute value in bits; 0 for 0.\<close>

fun nat_bitlen :: "nat \<Rightarrow> nat" where
  "nat_bitlen n = (if n = 0 then 0 else Suc (nat_bitlen (n div 2)))"

declare nat_bitlen.simps [simp del]

definition BitLen :: "int \<Rightarrow> nat" where
  "BitLen n = nat_bitlen (nat \<bar>n\<bar>)"

section \<open>keytype.go: kinds, precedence and constants\<close>

definition GOOGLE_PROVIDED_SYSTEM_MANAGED :: string where
  "GOOGLE_PROVIDED_SYSTEM_MANAGED = ''GOOGLE_PROVIDED/SYSTEM_MANAGED''"
definition GOOGLE_PROVIDED_USER_MANAGED :: string where
  "GOOGLE_PROVIDED_USER_MANAGED = ''GOOGLE_PROVIDED/USER_MANAGED''"
definition USER_PROVIDED_USER_MANAGED :: string where
  "USER_PROVIDED_USER_MANAGED = ''USER_PROVIDED/USER_MANAGED''"

definition keyKindPrecedence :: "string list" where
  "keyKindPrecedence =
     [USER_PROVIDED_USER_MANAGED, GOOGLE_PROVIDED_USER_MANAGED, GOOGLE_PROVIDED_SYSTEM_MANAGED]"

definition keyTypeAndOriginToMuxedKeyKind :: "string \<Rightarrow> string \<Rightarrow> abort + string" where
  "keyTypeAndOriginToMuxedKeyKind keyType keyOrigin =
     (let res = keyOrigin @ ''/'' @ keyType
      in if slices_Index keyKindPrecedence res = - 1
         then Inl (Panic (''Invalid key type and origin combination: '' @ res))
         else Inr res)"

definition googleProvidedSystemManagedValidityV1 :: Duration where
  "googleProvidedSystemManagedValidityV1 = Hour * 396 + Minute * 15"
definition googleProvidedSystemManagedValidityV2Min :: Duration where
  "googleProvidedSystemManagedValidityV2Min = Hour * 24 * 365 * 2"
definition googleProvidedSystemManagedValidityV2Max :: Duration where
  "googleProvidedSystemManagedValidityV2Max = Hour * 24 * (365 * 2 + 31)"
definition defaultMaxAfter :: Time where
  "defaultMaxAfter = time_Date 9999 December 31 23 59 59 0 UTC"
definition legacyGoogleProvidedUserManagedValidity :: Duration where
  "legacyGoogleProvidedUserManagedValidity = 87600 * Hour"
definition serviceAccountKeyExpiryHours :: "Duration list" where
  "serviceAccountKeyExpiryHours =
     [Hour * 1, Hour * 8, Hour * 24, Hour * 168, Hour * 336, Hour * 720, Hour * 1440, Hour * 2160]"

text \<open>
  \<open>GAIA_ID = regexp.MustCompile("^1[0-9]{20}$")\<close>. Without the multi-line flag \<open>^\<close>
  and \<open>$\<close> match only at the two ends of the text, so \<open>MatchString\<close> holds exactly for
  the byte \<open>1\<close> followed by twenty ASCII digits.
\<close>

definition is_digit :: "char \<Rightarrow> bool" where
  "is_digit c = (c \<in> set ''0123456789'')"

definition GAIA_ID_MatchString :: "string \<Rightarrow> bool" where
  "GAIA_ID_MatchString v =
     (case v of [] \<Rightarrow> False | c # ds \<Rightarrow> c = CHR ''1'' \<and> length ds = 20 \<and> list_all is_digit ds)"

definition IAMReadRequestsPerMinutePerProjectMax :: int where
  "IAMReadRequestsPerMinutePerProjectMax = 5500"
definition MaxInflightX509 :: nat where
  "MaxInflightX509 = 64"

section \<open>crypto/x509 certificates\<close>

text \<open>
  The fields of \<open>x509.Certificate\<close> that the checker reads. The algorithm and usage
  types are Go's typed integers with their \<open>iota\<close> values. \<open>PublicKey\<close> is the Go
  interface value: an \<open>*rsa.PublicKey\<close> with modulus \<open>N\<close> and exponent \<open>E\<close>, a key of
  another dynamic type (named by its Go type), or nil for an unknown algorithm.
\<close>

type_synonym PublicKeyAlgorithm = int
type_synonym SignatureAlgorithm = int
type_synonym ExtKeyUsage = int
type_synonym KeyUsage = int

definition UnknownPublicKeyAlgorithm :: PublicKeyAlgorithm where "UnknownPublicKeyAlgorithm = 0"
definition RSA :: PublicKeyAlgorithm where "RSA = 1"
definition DSA :: PublicKeyAlgorithm where "DSA = 2"
definition ECDSA :: PublicKeyAlgorithm where "ECDSA = 3"
definition Ed25519 :: PublicKeyAlgorithm where "Ed25519 = 4"

definition SHA1WithRSA :: SignatureAlgorithm where "SHA1WithRSA = 3"
definition SHA256WithRSA :: SignatureAlgorithm where "SHA256WithRSA = 4"
definition ECDSAWithSHA256 :: SignatureAlgorithm where "ECDSAWithSHA256 = 10"

definition ExtKeyUsageServerAuth :: ExtKeyUsage where "ExtKeyUsageServerAuth = 1"
definition ExtKeyUsageClientAuth :: ExtKeyUsage where "ExtKeyUsageClientAuth = 2"

definition KeyUsageDigitalSignature :: KeyUsage where "KeyUsageDigitalSignature = 1"

datatype PublicKey = rsa_PublicKey (N: int) (E: int) | other_PublicKey string | nil_PublicKey

record Certificate =
  Raw :: string
  SerialNumber :: int
  NotBefore :: Time
  NotAfter :: Time
  Subject_CommonName :: string
  Issuer_CommonName :: string
  PublicKeyAlgorithm :: PublicKeyAlgorithm
  SignatureAlgorithm :: SignatureAlgorithm
  PublicKey :: PublicKey
  ExtKeyUsage :: "ExtKeyUsage list"
  KeyUsage :: KeyUsage

section \<open>The signal engine (SAKey)\<close>

text \<open>
  The explanation of a signal is a \<open>fmt.Sprintf\<close> of a fixed template; the model keeps
  the template (one constructor each) and its arguments instead of the rendered text.
\<close>

datatype explanation =
    ExplNotAfter Time
  | ExplLegacyValidity Duration
  | ExplStandardValidity Duration
  | ExplExpiryHoursValidity Duration
  | ExplBetweenValidity Duration Duration Duration
  | ExplNonStandardValidity Duration Time Time
  | ExplUnexpectedExtKeyUsage "ExtKeyUsage list"
  | ExplUnexpectedKeyUsage KeyUsage
  | ExplGaiaID string string
  | ExplExpectedName string string string
  | ExplTruncatedName string string string
  | ExplNoExpectedName string string string
  | ExplNotRSA PublicKeyAlgorithm
  | ExplNotSHA1WithRSA SignatureAlgorithm
  | ExplKeyLength1024
  | ExplKeyLengthOther nat

record Signal =
  keyKind :: string
  explanation :: explanation

text \<open>The field \<open>keyKind\<close> of \<open>SAKey\<close> is \<open>resKeyKind\<close> here: \<open>Signal\<close> has the same
  field name.\<close>

record SAKey =
  serviceAccount :: string
  cert :: Certificate
  signals :: "Signal list"
  resKeyKind :: string

definition NewSAKey :: "string \<Rightarrow> Certificate \<Rightarrow> SAKey" where
  "NewSAKey sa c = \<lparr>serviceAccount = sa, cert = c, signals = [], resKeyKind = ''''\<rparr>"

text \<open>\<open>k.signals = append(k.signals, Signal{...})\<close>\<close>

definition append_signal :: "SAKey \<Rightarrow> string \<Rightarrow> explanation \<Rightarrow> SAKey" where
  "append_signal k kind ex = k\<lparr>signals := signals k @ [\<lparr>keyKind = kind, explanation = ex\<rparr>]\<rparr>"

definition CheckValidityPeriod :: "SAKey \<Rightarrow> SAKey" where
  "CheckValidityPeriod k =
     (let validityWindow = Time_Sub (NotAfter (cert k)) (NotBefore (cert k))
      in if NotAfter (cert k) = defaultMaxAfter
           then append_signal k GOOGLE_PROVIDED_USER_MANAGED (ExplNotAfter (NotAfter (cert k)))
         else if validityWindow = legacyGoogleProvidedUserManagedValidity
           then append_signal k GOOGLE_PROVIDED_USER_MANAGED (ExplLegacyValidity validityWindow)
         else if validityWindow = googleProvidedSystemManagedValidityV1
           then append_signal k GOOGLE_PROVIDED_SYSTEM_MANAGED (ExplStandardValidity validityWindow)
         else if slices_Contains serviceAccountKeyExpiryHours validityWindow
           then append_signal k GOOGLE_PROVIDED_USER_MANAGED (ExplExpiryHoursValidity validityWindow)
         else if validityWindow > googleProvidedSystemManagedValidityV2Min
                 \<and> validityWindow < googleProvidedSystemManagedValidityV2Max
           then append_signal k GOOGLE_PROVIDED_SYSTEM_MANAGED
                  (ExplBetweenValidity validityWindow googleProvidedSystemManagedValidityV2Min
                     googleProvidedSystemManagedValidityV2Max)
         else append_signal k USER_PROVIDED_USER_MANAGED
                (ExplNonStandardValidity validityWindow (NotBefore (cert k)) (NotAfter (cert k))))"

definition CheckExtensions :: "SAKey \<Rightarrow> SAKey" where
  "CheckExtensions k =
     (let k1 = (if length (ExtKeyUsage (cert k)) \<noteq> 1 \<or> ExtKeyUsage (cert k) ! 0 \<noteq> ExtKeyUsageClientAuth
                then append_signal k USER_PROVIDED_USER_MANAGED
                       (ExplUnexpectedExtKeyUsage (ExtKeyUsage (cert k)))
                else k)
      in if KeyUsage (cert k1) \<noteq> KeyUsageDigitalSignature
         then append_signal k1 USER_PROVIDED_USER_MANAGED (ExplUnexpectedKeyUsage (KeyUsage (cert k1)))
         else k1)"

text \<open>The closure \<open>checkName\<close> of \<open>checkNames\<close>, with the two names it captures.\<close>

definition checkName :: "string \<Rightarrow> string \<Rightarrow> string \<Rightarrow> string \<Rightarrow> SAKey \<Rightarrow> SAKey" where
  "checkName expectedName truncatedName t v k =
     (if GAIA_ID_MatchString v
        then append_signal k GOOGLE_PROVIDED_USER_MANAGED (ExplGaiaID t v)
      else if v = expectedName
        then append_signal k GOOGLE_PROVIDED_SYSTEM_MANAGED (ExplExpectedName t v expectedName)
      else if truncatedName \<noteq> '''' \<and> v = truncatedName
        then append_signal k GOOGLE_PROVIDED_SYSTEM_MANAGED (ExplTruncatedName t v truncatedName)
      else append_signal k USER_PROVIDED_USER_MANAGED (ExplNoExpectedName t v expectedName))"

definition checkNames :: "SAKey \<Rightarrow> SAKey" where
  "checkNames k =
     (let expectedName = strings_Replace (serviceAccount k) ''@'' ''.'' 1;
          truncatedName = (if length expectedName \<ge> 64 then take 64 expectedName else '''');
          k1 = checkName expectedName truncatedName ''SubjectCN'' (Subject_CommonName (cert k)) k
      in checkName expectedName truncatedName ''IssuerCN'' (Issuer_CommonName (cert k1)) k1)"

text \<open>The Go name of the dynamic type of a public key, as the runtime error prints it.\<close>

definition dynamic_type :: "PublicKey \<Rightarrow> string" where
  "dynamic_type pk =
     (case pk of rsa_PublicKey n e \<Rightarrow> ''*rsa.PublicKey'' | other_PublicKey ty \<Rightarrow> ty | nil_PublicKey \<Rightarrow> ''nil'')"

text \<open>
  \<open>k.cert.PublicKey.(*rsa.PublicKey).N.BitLen()\<close>: the type assertion has one result,
  so it panics when the dynamic type of \<open>PublicKey\<close> is not \<open>*rsa.PublicKey\<close>.
\<close>

definition rsa_BitLen :: "PublicKey \<Rightarrow> abort + nat" where
  "rsa_BitLen pk =
     (case pk of
        rsa_PublicKey n e \<Rightarrow> Inr (BitLen n)
      | other_PublicKey ty \<Rightarrow> Inl (TypeAssertionPanic (dynamic_type pk))
      | nil_PublicKey \<Rightarrow> Inl (TypeAssertionPanic (dynamic_type pk)))"

definition checkCrypto :: "SAKey \<Rightarrow> abort + SAKey" where
  "checkCrypto k =
     (let k1 = (if PublicKeyAlgorithm (cert k) \<noteq> RSA
                then append_signal k USER_PROVIDED_USER_MANAGED (ExplNotRSA (PublicKeyAlgorithm (cert k)))
                else k);
          k2 = (if SignatureAlgorithm (cert k1) \<noteq> SHA1WithRSA
                then append_signal k1 USER_PROVIDED_USER_MANAGED
                       (ExplNotSHA1WithRSA (SignatureAlgorithm (cert k1)))
                else k1)
      in case rsa_BitLen (PublicKey (cert k2)) of
           Inl p \<Rightarrow> Inl p
         | Inr bits \<Rightarrow>
             if bits = 1024
               then Inr (append_signal k2 GOOGLE_PROVIDED_USER_MANAGED ExplKeyLength1024)
             else if bits \<noteq> 2048
               then Inr (append_signal k2 USER_PROVIDED_USER_MANAGED (ExplKeyLengthOther bits))
             else Inr k2)"

definition check :: "SAKey \<Rightarrow> abort + SAKey" where
  "check k =
     (case checkCrypto (checkNames k) of
        Inl p \<Rightarrow> Inl p
      | Inr k2 \<Rightarrow> Inr (CheckExtensions (CheckValidityPeriod k2)))"

text \<open>The \<open>for _, signal := range k.signals\<close> loop of \<open>determineKeyKind\<close>, on the
  named result \<open>res\<close>.\<close>

fun determineKeyKind_loop :: "string \<Rightarrow> Signal list \<Rightarrow> string" where
  "determineKeyKind_loop res [] = res"
| "determineKeyKind_loop res (signal # rest) =
     (if res = '''' then determineKeyKind_loop (keyKind signal) rest
      else if slices_Index keyKindPrecedence (keyKind signal) < slices_Index keyKindPrecedence res
        then determineKeyKind_loop (keyKind signal) rest
      else determineKeyKind_loop res rest)"

definition determineKeyKind :: "SAKey \<Rightarrow> abort + (string \<times> SAKey)" where
  "determineKeyKind k =
     (case check k of
        Inl p \<Rightarrow> Inl p
      | Inr k1 \<Rightarrow>
          if length (signals k1) = 0 then Inl (Panic ''No signals found for key'')
          else (let res = determineKeyKind_loop '''' (signals k1)
                in Inr (res, k1\<lparr>resKeyKind := res\<rparr>)))"

text \<open>Two calls in a row on the same key: \<open>k.determineKeyKind(); k.determineKeyKind()\<close>.\<close>

definition determineKeyKind_twice :: "SAKey \<Rightarrow> abort + (string \<times> SAKey)" where
  "determineKeyKind_twice k =
     (case determineKeyKind k of
        Inl p \<Rightarrow> Inl p
      | Inr (res, k1) \<Rightarrow> determineKeyKind k1)"

text \<open>
  The specification's \<open>classify(principal, certificate)\<close>: the signals that \<open>check\<close>
  leaves on a fresh key, as \<open>main\<close> runs it (\<open>NewSAKey\<close>, then \<open>determineKeyKind\<close>).
\<close>

definition classify :: "string \<Rightarrow> Certificate \<Rightarrow> abort + Signal list" where
  "classify sa c = (case check (NewSAKey sa c) of Inl p \<Rightarrow> Inl p | Inr k \<Rightarrow> Inr (signals k))"

text \<open>The signal list a call of \<open>determineKeyKind\<close> leaves on the key; none after a panic.\<close>

definition signals_of :: "abort + (string \<times> SAKey) \<Rightarrow> Signal list" where
  "signals_of r = (case r of Inl p \<Rightarrow> [] | Inr (res, k) \<Rightarrow> signals k)"

subsection \<open>The name check as the specification words it\<close>

text \<open>
  The expected name is the principal with only the first \<open>@\<close> replaced by a dot; the
  truncated name is its first 64 bytes when it has at least 64, and empty otherwise; a
  common name gets the kind of the first of three tests that holds.
\<close>

definition spec_expectedName :: "string \<Rightarrow> string" where
  "spec_expectedName sa =
     (if CHR ''@'' \<in> set sa
      then takeWhile (\<lambda>c. c \<noteq> CHR ''@'') sa @ ''.'' @ tl (dropWhile (\<lambda>c. c \<noteq> CHR ''@'') sa)
      else sa)"

definition spec_truncatedName :: "string \<Rightarrow> string" where
  "spec_truncatedName sa =
     (if length (spec_expectedName sa) \<ge> 64 then take 64 (spec_expectedName sa) else '''')"

definition spec_nameKind :: "string \<Rightarrow> string \<Rightarrow> string" where
  "spec_nameKind sa v =
     (if GAIA_ID_MatchString v then GOOGLE_PROVIDED_USER_MANAGED
      else if v = spec_expectedName sa
              \<or> (spec_truncatedName sa \<noteq> '''' \<and> v = spec_truncatedName sa)
        then GOOGLE_PROVIDED_SYSTEM_MANAGED
      else USER_PROVIDED_USER_MANAGED)"

subsection \<open>Example inputs\<close>

text \<open>
  A principal and a certificate with the parameters of a system-managed key (RSA with a
  2048-bit modulus, SHA1WithRSA, client authentication, 396h15m of validity, both common
  names the expected name), and the same certificate carrying an ECDSA key.
\<close>

definition example_principal :: string where
  "example_principal = ''scanner@my-project.iam.gserviceaccount.com''"

definition example_cert :: Certificate where
  "example_cert =
     \<lparr>Raw = '''', SerialNumber = 1,
      NotBefore = time_Date 2024 1 1 0 0 0 0 UTC,
      NotAfter = time_Date 2024 1 17 12 15 0 0 UTC,
      Subject_CommonName = ''scanner.my-project.iam.gserviceaccount.com'',
      Issuer_CommonName = ''scanner.my-project.iam.gserviceaccount.com'',
      PublicKeyAlgorithm = RSA, SignatureAlgorithm = SHA1WithRSA,
      PublicKey = rsa_PublicKey (2 ^ 2047) 65537,
      ExtKeyUsage = [ExtKeyUsageClientAuth], KeyUsage = KeyUsageDigitalSignature\<rparr>"

definition example_ecdsa_cert :: Certificate where
  "example_ecdsa_cert =
     example_cert\<lparr>PublicKeyAlgorithm := ECDSA, SignatureAlgorithm := ECDSAWithSHA256,
                  PublicKey := other_PublicKey ''*ecdsa.PublicKey''\<rparr>"

text \<open>The signals of the example certificate, and its key after one \<open>determineKeyKind\<close>.\<close>

definition example_signals :: "Signal list" where
  "example_signals =
     [\<lparr>keyKind = GOOGLE_PROVIDED_SYSTEM_MANAGED,
       explanation = ExplExpectedName ''SubjectCN'' ''scanner.my-project.iam.gserviceaccount.com''
                       ''scanner.my-project.iam.gserviceaccount.com''\<rparr>,
      \<lparr>keyKind = GOOGLE_PROVIDED_SYSTEM_MANAGED,
       explanation = ExplExpectedName ''IssuerCN'' ''scanner.my-project.iam.gserviceaccount.com''
                       ''scanner.my-project.iam.gserviceaccount.com''\<rparr>,
      \<lparr>keyKind = GOOGLE_PROVIDED_SYSTEM_MANAGED,
       explanation = ExplStandardValidity googleProvidedSystemManagedValidityV1\<rparr>]"

definition example_key :: SAKey where
  "example_key =
     \<lparr>serviceAccount = example_principal, cert = example_cert, signals = example_signals,
      resKeyKind = GOOGLE_PROVIDED_SYSTEM_MANAGED\<rparr>"

section \<open>Errors and the outside world\<close>

text \<open>
  A non-nil Go \<open>error\<close>. The errors the checker builds with \<open>fmt.Errorf\<close> keep their
  template (one constructor each) and arguments; \<open>ExternalError\<close> is an error returned by
  a library or the network, \<open>JoinError\<close> the result of \<open>errors.Join\<close>. A nil error is
  \<open>None\<close> of \<open>error option\<close>.
\<close>

datatype error =
    ExternalError string
  | ErrMakingRequest error
  | ErrNotFound
  | ErrStatusCode int
  | ErrReadingBody error
  | ErrUnmarshalJSON error
  | ErrDecodingPEM
  | ErrExtraData
  | ErrBlockType string
  | ErrHeaders "(string \<times> string) list"
  | ErrParsingCertificate error
  | ErrGCPAPI error
  | JoinError "error list"

text \<open>
  \<open>errors.Join(errs...)\<close>: nil when every error is nil, else an error wrapping the
  non-nil ones in order.
\<close>

definition errors_Join :: "error option list \<Rightarrow> error option" where
  "errors_Join errs =
     (case List.map_filter (\<lambda>e. e) errs of [] \<Rightarrow> None | e # es \<Rightarrow> Some (JoinError (e # es)))"

text \<open>
  An HTTP response (its status code and what \<open>io.ReadAll\<close> gives for its body), a PEM
  block, and a key record of the IAM API.
\<close>

record Response =
  StatusCode :: int
  Body :: "error + string"

record pem_Block =
  Type :: string
  Headers :: "(string \<times> string) list"
  Bytes :: string

record ServiceAccountKey =
  Name :: string
  KeyOrigin :: string
  KeyType :: string

text \<open>
  The collaborators of one run, outside the repository: the HTTP endpoint, the JSON, PEM
  and X.509 decoders, the in-flight semaphore, the rate limiter and the IAM client.
  \<open>json_Unmarshal\<close> gives the entries of the decoded \<open>map[string]string\<close> in the order
  in which this run's \<open>range\<close> visits them. \<open>sem_Acquire sa\<close> and \<open>limiter_Wait sa\<close>
  are the results of \<open>inflight.Acquire\<close> and \<open>limiter.Wait\<close> in the task of principal
  \<open>sa\<close>; \<open>iam_NewService\<close> is the error of the one \<open>iam.NewService\<close> call behind
  \<open>iamService()\<close>; \<open>iam_Keys_List name\<close> is the result of \<open>Keys.List(name).Do()\<close>.
  Every answer is a function of the request: a principal asked about twice gets the
  same answer.
\<close>

record env =
  http_Get :: "string \<Rightarrow> error + Response"
  json_Unmarshal :: "string \<Rightarrow> error + (string \<times> string) list"
  pem_Decode :: "string \<Rightarrow> pem_Block option \<times> string"
  x509_ParseCertificate :: "string \<Rightarrow> error + Certificate"
  sem_Acquire :: "string \<Rightarrow> error option"
  limiter_Wait :: "string \<Rightarrow> error option"
  iam_NewService :: "error option"
  iam_Keys_List :: "string \<Rightarrow> error + ServiceAccountKey list"

section \<open>sakey\_x509.go and api.go: fetching the keys of one principal\<close>

text \<open>A Go map that may be nil: \<open>None\<close> is the nil map.\<close>

type_synonym ServiceAccountCerts = "(string \<Rightarrow> Certificate option) option"
type_synonym ServiceAccountKeys = "(string \<Rightarrow> ServiceAccountKey option) option"

text \<open>The loop \<open>for keyId, v := range keys\<close> of \<open>getServiceAccountKeyCerts\<close>.\<close>

fun certs_loop ::
  "env \<Rightarrow> (string \<times> string) list \<Rightarrow> (string \<Rightarrow> Certificate option)
     \<Rightarrow> ServiceAccountCerts \<times> error option" where
  "certs_loop env [] certs = (Some certs, None)"
| "certs_loop env ((keyId, v) # others) certs =
     (case pem_Decode env v of
        (None, rest) \<Rightarrow> (None, Some ErrDecodingPEM)
      | (Some block, rest) \<Rightarrow>
          if length rest > 0 then (None, Some ErrExtraData)
          else if Type block \<noteq> ''CERTIFICATE'' then (None, Some (ErrBlockType (Type block)))
          else if length (Headers block) > 0 then (None, Some (ErrHeaders (Headers block)))
          else (case x509_ParseCertificate env (Bytes block) of
                  Inl err \<Rightarrow> (None, Some (ErrParsingCertificate err))
                | Inr parsed \<Rightarrow> certs_loop env others (certs(keyId \<mapsto> parsed))))"

definition getServiceAccountKeyCerts :: "env \<Rightarrow> string \<Rightarrow> ServiceAccountCerts \<times> error option" where
  "getServiceAccountKeyCerts env sa =
     (case http_Get env (''https://www.googleapis.com/service_accounts/v1/metadata/x509/'' @ sa) of
        Inl err \<Rightarrow> (None, Some (ErrMakingRequest err))
      | Inr resp \<Rightarrow>
          if StatusCode resp = 404 then (None, Some ErrNotFound)
          else if StatusCode resp \<noteq> 200 then (None, Some (ErrStatusCode (StatusCode resp)))
          else (case Body resp of
                  Inl err \<Rightarrow> (None, Some (ErrReadingBody err))
                | Inr body \<Rightarrow>
                    (case json_Unmarshal env body of
                       Inl err \<Rightarrow> (None, Some (ErrUnmarshalJSON err))
                     | Inr keys \<Rightarrow> certs_loop env keys Map.empty)))"

text \<open>
  The loop \<open>for _, key := range keys.Keys\<close> of \<open>getServiceAccountKeys\<close>;
  \<open>strings.SplitAfter(key.Name, "keys/")[1]\<close> panics when the name has no \<open>keys/\<close>.
  The warning printed for more than three internal keys is not modelled.
\<close>

fun keys_loop ::
  "ServiceAccountKey list \<Rightarrow> (string \<Rightarrow> ServiceAccountKey option) \<Rightarrow> nat
     \<Rightarrow> abort + ((string \<Rightarrow> ServiceAccountKey option) \<times> nat)" where
  "keys_loop [] res num_internal = Inr (res, num_internal)"
| "keys_loop (key # others) res num_internal =
     (let parts = strings_SplitAfter (Name key) ''keys/''
      in if length parts \<le> 1 then Inl (IndexOutOfRange 1 (length parts))
         else keys_loop others (res(parts ! 1 \<mapsto> key))
                (if KeyOrigin key = ''GOOGLE_PROVIDED'' \<and> KeyType key = ''SYSTEM_MANAGED''
                 then num_internal + 1 else num_internal))"

definition getServiceAccountKeys :: "env \<Rightarrow> string \<Rightarrow> abort + (ServiceAccountKeys \<times> error option)" where
  "getServiceAccountKeys env sa =
     (case iam_Keys_List env (''projects/-/serviceAccounts/'' @ sa) of
        Inl err \<Rightarrow> Inr (None, Some err)
      | Inr keys \<Rightarrow>
          (case keys_loop keys Map.empty 0 of
             Inl p \<Rightarrow> Inl p
           | Inr (res, num_internal) \<Rightarrow> Inr (Some res, None)))"

section \<open>parllelMap\<close>

text \<open>
  \<open>parllelMap\<close> starts one goroutine per item and waits for all of them. A task is a
  function of its item and of the state the goroutines share; it returns its result and
  error with the new shared state, or aborts the process. A run is given by its schedule
  \<open>sched\<close>: the indices in the order in which the tasks take effect on the shared
  state, each index of the items once. Task \<open>i\<close> writes \<open>res[i]\<close> and \<open>errs[i]\<close>.
  \<open>zero\<close> is the zero value of the result type, which \<open>make\<close> fills \<open>res\<close> with.
  The tasks of this program touch the shared state once each (one call of \<open>isBadSA\<close> or
  \<open>addBadSA\<close>, under the mutex), so every interleaving of their steps is one such order.
\<close>

fun run_tasks ::
  "'i list \<Rightarrow> ('i \<Rightarrow> 's \<Rightarrow> abort + (('o \<times> error option) \<times> 's)) \<Rightarrow> nat list
     \<Rightarrow> 'o list \<Rightarrow> error option list \<Rightarrow> 's \<Rightarrow> abort + ('o list \<times> error option list \<times> 's)" where
  "run_tasks items f [] res errs s = Inr (res, errs, s)"
| "run_tasks items f (i # sched) res errs s =
     (case f (items ! i) s of
        Inl p \<Rightarrow> Inl p
      | Inr ((r, err), s') \<Rightarrow> run_tasks items f sched (res[i := r]) (errs[i := err]) s')"

definition parllelMap ::
  "'o \<Rightarrow> 'i list \<Rightarrow> ('i \<Rightarrow> 's \<Rightarrow> abort + (('o \<times> error option) \<times> 's)) \<Rightarrow> nat list \<Rightarrow> 's
     \<Rightarrow> abort + (('o list option \<times> error option) \<times> 's)" where
  "parllelMap zero items f sched s =
     (case run_tasks items f sched (replicate (length items) zero) (replicate (length items) None) s of
        Inl p \<Rightarrow> Inl p
      | Inr (res, errs, s') \<Rightarrow>
          (case errors_Join errs of
             Some final_err \<Rightarrow> Inr ((None, Some final_err), s')
           | None \<Rightarrow> Inr ((Some res, None), s')))"

section \<open>KeyCollection: the two fetch phases\<close>

text \<open>The mutex \<open>badSAsLock\<close> has no field: a task's access to \<open>badSAs\<close> is one step
  of the schedule.\<close>

record KeyCollection =
  serviceAccountIDs :: "string list"
  observedKeys :: "ServiceAccountCerts list"
  groundTruthKeys :: "ServiceAccountKeys list"
  badSAs :: "string list"

definition NewKeyCollection :: "string list \<Rightarrow> KeyCollection" where
  "NewKeyCollection ids = \<lparr>serviceAccountIDs = ids, observedKeys = [], groundTruthKeys = [], badSAs = []\<rparr>"

definition isBadSA :: "KeyCollection \<Rightarrow> string \<Rightarrow> bool" where
  "isBadSA k sa = slices_Contains (badSAs k) sa"

definition addBadSA :: "KeyCollection \<Rightarrow> string \<Rightarrow> KeyCollection" where
  "addBadSA k sa = k\<lparr>badSAs := badSAs k @ [sa]\<rparr>"

text \<open>The closure passed to \<open>parllelMap\<close> in \<open>FetchObservedKeys\<close>. The counter of the
  semaphore (at most \<open>MaxInflightX509\<close> fetches at once) and the warning the closure
  prints are not modelled.\<close>

definition observedTask ::
  "env \<Rightarrow> string \<Rightarrow> KeyCollection \<Rightarrow> abort + ((ServiceAccountCerts \<times> error option) \<times> KeyCollection)" where
  "observedTask env sa k =
     (case sem_Acquire env sa of
        Some err \<Rightarrow> Inr ((None, Some err), k)
      | None \<Rightarrow>
          (case getServiceAccountKeyCerts env sa of
             (res, Some err) \<Rightarrow> Inr ((None, None), addBadSA k sa)
           | (res, None) \<Rightarrow> Inr ((res, None), k)))"

definition FetchObservedKeys :: "env \<Rightarrow> nat list \<Rightarrow> KeyCollection \<Rightarrow> abort + (error option \<times> KeyCollection)" where
  "FetchObservedKeys env sched k =
     (let k1 = k\<lparr>observedKeys := replicate (length (serviceAccountIDs k)) None\<rparr>
      in case parllelMap None (serviceAccountIDs k1) (observedTask env) sched k1 of
           Inl p \<Rightarrow> Inl p
         | Inr ((res, Some err), k2) \<Rightarrow> Inr (Some (ErrGCPAPI err), k2)
         | Inr ((res, None), k2) \<Rightarrow>
             Inr (None, k2\<lparr>observedKeys := (case res of None \<Rightarrow> [] | Some r \<Rightarrow> r)\<rparr>))"

text \<open>
  The closure passed to \<open>parllelMap\<close> in \<open>FetchGroundTruthKeys\<close>. Beside the key
  collection the shared state holds the list of the principals for which the IAM API
  has been called so far.
\<close>

definition groundTruthTask ::
  "env \<Rightarrow> string \<Rightarrow> KeyCollection \<times> string list
     \<Rightarrow> abort + ((ServiceAccountKeys \<times> error option) \<times> (KeyCollection \<times> string list))" where
  "groundTruthTask env sa st =
     (case st of (k, calls) \<Rightarrow>
        if isBadSA k sa then Inr ((None, None), (k, calls))
        else (case limiter_Wait env sa of
                Some err \<Rightarrow> Inr ((None, Some err), (k, calls))
              | None \<Rightarrow>
                  (case getServiceAccountKeys env sa of
                     Inl p \<Rightarrow> Inl p
                   | Inr r \<Rightarrow> Inr (r, (k, calls @ [sa])))))"

text \<open>\<open>iamService()\<close> exits the process with status 1 when the client cannot be made.\<close>

definition FetchGroundTruthKeys ::
  "env \<Rightarrow> nat list \<Rightarrow> KeyCollection \<times> string list
     \<Rightarrow> abort + (error option \<times> (KeyCollection \<times> string list))" where
  "FetchGroundTruthKeys env sched st =
     (case st of (k, calls) \<Rightarrow>
        (let k1 = k\<lparr>groundTruthKeys := replicate (length (serviceAccountIDs k)) None\<rparr>
         in case iam_NewService env of
              Some err \<Rightarrow> Inl (Exit 1)
            | None \<Rightarrow>
                (case parllelMap None (serviceAccountIDs k1) (groundTruthTask env) sched (k1, calls) of
                   Inl p \<Rightarrow> Inl p
                 | Inr ((res, Some err), (k2, calls2)) \<Rightarrow> Inr (Some (ErrGCPAPI err), (k2, calls2))
                 | Inr ((res, None), (k2, calls2)) \<Rightarrow>
                     Inr (None, (k2\<lparr>groundTruthKeys := (case res of None \<Rightarrow> [] | Some r \<Rightarrow> r)\<rparr>,
                                 calls2)))))"

text \<open>The public fetch of a principal fails when \<open>getServiceAccountKeyCerts\<close> returns a
  non-nil error.\<close>

definition fetch_fails :: "env \<Rightarrow> string \<Rightarrow> bool" where
  "fetch_fails env sa = (snd (getServiceAccountKeyCerts env sa) \<noteq> None)"

text \<open>
  What the tasks of the two phases return in a world whose answers depend on the request
  only: the result of the public task of a principal, the result and error of its
  ground-truth task, and whether its ground-truth task calls the IAM API.
\<close>

definition observed_result :: "env \<Rightarrow> string \<Rightarrow> ServiceAccountCerts" where
  "observed_result env sa = (if fetch_fails env sa then None else fst (getServiceAccountKeyCerts env sa))"

definition api_called :: "env \<Rightarrow> KeyCollection \<Rightarrow> string \<Rightarrow> bool" where
  "api_called env k sa = (\<not> isBadSA k sa \<and> limiter_Wait env sa = None)"

definition groundTruth_result :: "env \<Rightarrow> KeyCollection \<Rightarrow> string \<Rightarrow> ServiceAccountKeys \<times> error option" where
  "groundTruth_result env k sa =
     (if isBadSA k sa then (None, None)
      else (case limiter_Wait env sa of
              Some err \<Rightarrow> (None, Some err)
            | None \<Rightarrow> (case getServiceAccountKeys env sa of Inl p \<Rightarrow> (None, None) | Inr r \<Rightarrow> r)))"

subsection \<open>An example world\<close>

text \<open>
  Four principals. The endpoint serves one well-formed certificate for
  \<open>example_principal\<close> and for \<open>example_denied\<close>, a well-formed certificate and a block
  of type \<open>PUBLIC KEY\<close> for \<open>example_partly\<close>, and status 404 for anything else
  (\<open>example_missing\<close>). The IAM API lists one key for \<open>example_principal\<close> and answers
  every other request with an error.
\<close>

definition example_partly :: string where
  "example_partly = ''partly@my-project.iam.gserviceaccount.com''"
definition example_missing :: string where
  "example_missing = ''missing@my-project.iam.gserviceaccount.com''"
definition example_denied :: string where
  "example_denied = ''denied@my-project.iam.gserviceaccount.com''"

definition example_env :: env where
  "example_env =
     \<lparr>http_Get = (\<lambda>url.
        if url = ''https://www.googleapis.com/service_accounts/v1/metadata/x509/'' @ example_principal
           \<or> url = ''https://www.googleapis.com/service_accounts/v1/metadata/x509/'' @ example_denied
          then Inr \<lparr>StatusCode = 200, Body = Inr ''one-key''\<rparr>
        else if url = ''https://www.googleapis.com/service_accounts/v1/metadata/x509/'' @ example_partly
          then Inr \<lparr>StatusCode = 200, Body = Inr ''two-keys''\<rparr>
        else Inr \<lparr>StatusCode = 404, Body = Inr ''''\<rparr>),
      json_Unmarshal = (\<lambda>body.
        if body = ''one-key'' then Inr [(''key1'', ''pem1'')]
        else if body = ''two-keys'' then Inr [(''key1'', ''pem1''), (''key2'', ''pem2'')]
        else Inl (ExternalError ''unexpected end of JSON input'')),
      pem_Decode = (\<lambda>v.
        if v = ''pem1'' then (Some \<lparr>Type = ''CERTIFICATE'', Headers = [], Bytes = ''der1''\<rparr>, '''')
        else if v = ''pem2'' then (Some \<lparr>Type = ''PUBLIC KEY'', Headers = [], Bytes = ''der2''\<rparr>, '''')
        else (None, v)),
      x509_ParseCertificate = (\<lambda>der.
        if der = ''der1'' then Inr example_cert
        else Inl (ExternalError ''x509: malformed certificate'')),
      sem_Acquire = (\<lambda>sa. None),
      limiter_Wait = (\<lambda>sa. None),
      iam_NewService = None,
      iam_Keys_List = (\<lambda>name.
        if name = ''projects/-/serviceAccounts/'' @ example_principal
          then Inr [\<lparr>Name = ''projects/my-project/serviceAccounts/scanner/keys/key1'',
                     KeyOrigin = ''GOOGLE_PROVIDED'', KeyType = ''SYSTEM_MANAGED''\<rparr>]
        else Inl (ExternalError ''googleapi: Error 403''))\<rparr>"

text \<open>The key collection of the four example principals after the public phase, with
  the two principals whose fetch failed marked bad.\<close>

definition example_collection :: KeyCollection where
  "example_collection =
     \<lparr>serviceAccountIDs = [example_principal, example_partly, example_missing, example_denied],
      observedKeys = [Some [''key1'' \<mapsto> example_cert], None, None, Some [''key1'' \<mapsto> example_cert]],
      groundTruthKeys = [],
      badSAs = [example_missing, example_partly]\<rparr>"

section \<open>Properties of the signal engine\<close>

lemma kinds_distinct:
  "USER_PROVIDED_USER_MANAGED \<noteq> GOOGLE_PROVIDED_USER_MANAGED"
  "USER_PROVIDED_USER_MANAGED \<noteq> GOOGLE_PROVIDED_SYSTEM_MANAGED"
  "GOOGLE_PROVIDED_USER_MANAGED \<noteq> GOOGLE_PROVIDED_SYSTEM_MANAGED"
  "USER_PROVIDED_USER_MANAGED \<noteq> ''''"
  "GOOGLE_PROVIDED_USER_MANAGED \<noteq> ''''"
  "GOOGLE_PROVIDED_SYSTEM_MANAGED \<noteq> ''''"
  by (simp_all add: USER_PROVIDED_USER_MANAGED_def GOOGLE_PROVIDED_USER_MANAGED_def
      GOOGLE_PROVIDED_SYSTEM_MANAGED_def)

lemma precedence_index:
  "slices_Index keyKindPrecedence USER_PROVIDED_USER_MANAGED = 0"
  "slices_Index keyKindPrecedence GOOGLE_PROVIDED_USER_MANAGED = 1"
  "slices_Index keyKindPrecedence GOOGLE_PROVIDED_SYSTEM_MANAGED = 2"
  using kinds_distinct by (simp_all add: slices_Index_def keyKindPrecedence_def)

lemma precedence_members:
  "k \<in> set keyKindPrecedence \<longleftrightarrow>
     k = USER_PROVIDED_USER_MANAGED \<or> k = GOOGLE_PROVIDED_USER_MANAGED \<or> k = GOOGLE_PROVIDED_SYSTEM_MANAGED"
  by (auto simp: keyKindPrecedence_def)

lemma precedence_index_absent:
  "k \<notin> set keyKindPrecedence \<Longrightarrow> slices_Index keyKindPrecedence k = - 1"
  by (simp add: slices_Index_def keyKindPrecedence_def)

lemma precedence_index_inj:
  assumes "a \<in> set keyKindPrecedence" "b \<in> set keyKindPrecedence"
    and "slices_Index keyKindPrecedence a = slices_Index keyKindPrecedence b"
  shows "a = b"
  using assms by (auto simp: precedence_members precedence_index)

lemma precedence_nonempty: "k \<in> set keyKindPrecedence \<Longrightarrow> k \<noteq> ''''"
  using kinds_distinct by (auto simp: precedence_members)

text \<open>
  C7. Mapping origin \<open>USER_PROVIDED\<close> with type \<open>SYSTEM_MANAGED\<close> panics and returns
  no value; each of the three valid combinations returns origin, a slash and type.
\<close>

theorem keyTypeAndOriginToMuxedKeyKind_cases:
  "keyTypeAndOriginToMuxedKeyKind ''SYSTEM_MANAGED'' ''USER_PROVIDED''
     = Inl (Panic ''Invalid key type and origin combination: USER_PROVIDED/SYSTEM_MANAGED'')
   \<and> keyTypeAndOriginToMuxedKeyKind ''SYSTEM_MANAGED'' ''GOOGLE_PROVIDED''
     = Inr (''GOOGLE_PROVIDED'' @ ''/'' @ ''SYSTEM_MANAGED'')
   \<and> keyTypeAndOriginToMuxedKeyKind ''USER_MANAGED'' ''GOOGLE_PROVIDED''
     = Inr (''GOOGLE_PROVIDED'' @ ''/'' @ ''USER_MANAGED'')
   \<and> keyTypeAndOriginToMuxedKeyKind ''USER_MANAGED'' ''USER_PROVIDED''
     = Inr (''USER_PROVIDED'' @ ''/'' @ ''USER_MANAGED'')"
  by (simp add: keyTypeAndOriginToMuxedKeyKind_def slices_Index_def keyKindPrecedence_def
      USER_PROVIDED_USER_MANAGED_def GOOGLE_PROVIDED_USER_MANAGED_def
      GOOGLE_PROVIDED_SYSTEM_MANAGED_def)

lemma keyTypeAndOriginToMuxedKeyKind_returns_iff:
  "(\<exists>v. keyTypeAndOriginToMuxedKeyKind keyType keyOrigin = Inr v)
     \<longleftrightarrow> keyOrigin @ ''/'' @ keyType \<in> set keyKindPrecedence"
proof (cases "keyOrigin @ ''/'' @ keyType \<in> set keyKindPrecedence")
  case True
  then have "slices_Index keyKindPrecedence (keyOrigin @ ''/'' @ keyType) \<noteq> - 1"
    by (auto simp: precedence_members precedence_index)
  with True show ?thesis by (simp add: keyTypeAndOriginToMuxedKeyKind_def Let_def)
next
  case False
  then show ?thesis
    by (simp add: keyTypeAndOriginToMuxedKeyKind_def Let_def precedence_index_absent)
qed

subsection \<open>The precedence loop\<close>

lemma loop_from_kind:
  assumes "res \<in> set keyKindPrecedence"
    and "\<forall>s\<in>set sigs. keyKind s \<in> set keyKindPrecedence"
  shows "determineKeyKind_loop res sigs \<in> insert res (keyKind ` set sigs)
       \<and> slices_Index keyKindPrecedence (determineKeyKind_loop res sigs)
            \<le> slices_Index keyKindPrecedence res
       \<and> (\<forall>s\<in>set sigs. slices_Index keyKindPrecedence (determineKeyKind_loop res sigs)
            \<le> slices_Index keyKindPrecedence (keyKind s))"
  using assms
proof (induction sigs arbitrary: res)
  case Nil
  then show ?case by simp
next
  case (Cons s sigs)
  have ne: "res \<noteq> ''''" using Cons.prems(1) by (rule precedence_nonempty)
  have sk: "keyKind s \<in> set keyKindPrecedence" and rest: "\<forall>s\<in>set sigs. keyKind s \<in> set keyKindPrecedence"
    using Cons.prems(2) by simp_all
  show ?case
  proof (cases "slices_Index keyKindPrecedence (keyKind s) < slices_Index keyKindPrecedence res")
    case True
    from Cons.IH[OF sk rest] True ne show ?thesis by auto
  next
    case False
    from Cons.IH[OF Cons.prems(1) rest] False ne show ?thesis by auto
  qed
qed

lemma loop_minimal:
  assumes "sigs \<noteq> []" and "\<forall>s\<in>set sigs. keyKind s \<in> set keyKindPrecedence"
  shows "determineKeyKind_loop '''' sigs \<in> keyKind ` set sigs
       \<and> (\<forall>s\<in>set sigs. slices_Index keyKindPrecedence (determineKeyKind_loop '''' sigs)
            \<le> slices_Index keyKindPrecedence (keyKind s))"
proof -
  from assms(1) obtain s rest where sigs: "sigs = s # rest" by (cases sigs) auto
  have sk: "keyKind s \<in> set keyKindPrecedence" and r: "\<forall>s\<in>set rest. keyKind s \<in> set keyKindPrecedence"
    using assms(2) sigs by simp_all
  from loop_from_kind[OF sk r] show ?thesis unfolding sigs by auto
qed

lemma loop_unique:
  assumes "sigs \<noteq> []" and "\<forall>s\<in>set sigs. keyKind s \<in> set keyKindPrecedence"
    and "r \<in> keyKind ` set sigs"
    and "\<forall>s\<in>set sigs. slices_Index keyKindPrecedence r \<le> slices_Index keyKindPrecedence (keyKind s)"
  shows "determineKeyKind_loop '''' sigs = r"
proof -
  define l where "l = determineKeyKind_loop [] sigs"
  from loop_minimal[OF assms(1,2)] have l_in: "l \<in> keyKind ` set sigs"
    and l_min: "\<forall>s\<in>set sigs. slices_Index keyKindPrecedence l \<le> slices_Index keyKindPrecedence (keyKind s)"
    unfolding l_def by simp_all
  from l_in obtain s1 where s1: "s1 \<in> set sigs" "l = keyKind s1" by blast
  from assms(3) obtain s2 where s2: "s2 \<in> set sigs" "r = keyKind s2" by blast
  have "slices_Index keyKindPrecedence r \<le> slices_Index keyKindPrecedence l"
    using assms(4) s1 by blast
  moreover have "slices_Index keyKindPrecedence l \<le> slices_Index keyKindPrecedence r"
    using l_min s2 by blast
  ultimately have eq: "slices_Index keyKindPrecedence l = slices_Index keyKindPrecedence r" by simp
  have "l \<in> set keyKindPrecedence" using s1 assms(2) by blast
  moreover have "r \<in> set keyKindPrecedence" using s2 assms(2) by blast
  ultimately have "l = r" using eq by (rule precedence_index_inj)
  then show ?thesis by (simp only: l_def)
qed

lemma loop_set_cong:
  assumes "sigs \<noteq> []" and "\<forall>s\<in>set sigs. keyKind s \<in> set keyKindPrecedence"
    and "set sigs' = set sigs"
  shows "determineKeyKind_loop '''' sigs' = determineKeyKind_loop '''' sigs"
proof -
  have ne: "sigs' \<noteq> []" using assms(1,3) by auto
  have v: "\<forall>s\<in>set sigs'. keyKind s \<in> set keyKindPrecedence" using assms(2,3) by simp
  have m: "determineKeyKind_loop '''' sigs \<in> keyKind ` set sigs'"
    "\<forall>s\<in>set sigs'. slices_Index keyKindPrecedence (determineKeyKind_loop '''' sigs)
            \<le> slices_Index keyKindPrecedence (keyKind s)"
    using loop_minimal[OF assms(1,2)] unfolding assms(3) by blast+
  show ?thesis by (rule loop_unique[OF ne v m])
qed

text \<open>
  C3. On a non-empty signal list whose kinds are among the three kinds of the precedence
  list, the loop of \<open>determineKeyKind\<close> returns a kind of some signal whose position in
  \<open>keyKindPrecedence\<close> is the earliest among all signals' kinds, and every permutation of
  the list gives the same result.
\<close>

theorem determineKeyKind_loop_precedence:
  assumes "sigs \<noteq> []" and "\<forall>s\<in>set sigs. keyKind s \<in> set keyKindPrecedence"
  shows "determineKeyKind_loop '''' sigs \<in> keyKind ` set sigs
       \<and> (\<forall>s\<in>set sigs. slices_Index keyKindPrecedence (determineKeyKind_loop '''' sigs)
            \<le> slices_Index keyKindPrecedence (keyKind s))
       \<and> (\<forall>sigs'. mset sigs' = mset sigs \<longrightarrow>
            determineKeyKind_loop '''' sigs' = determineKeyKind_loop '''' sigs)"
proof -
  have "determineKeyKind_loop '''' sigs' = determineKeyKind_loop '''' sigs"
    if "mset sigs' = mset sigs" for sigs'
    by (rule loop_set_cong[OF assms mset_eq_setD[OF that]])
  with loop_minimal[OF assms] show ?thesis by blast
qed


theorem determineKeyKind_loop_precedence_witness:
  "determineKeyKind_loop ''''
     [\<lparr>keyKind = GOOGLE_PROVIDED_SYSTEM_MANAGED, explanation = ExplStandardValidity 5\<rparr>,
      \<lparr>keyKind = USER_PROVIDED_USER_MANAGED, explanation = ExplKeyLengthOther 512\<rparr>,
      \<lparr>keyKind = GOOGLE_PROVIDED_USER_MANAGED, explanation = ExplKeyLength1024\<rparr>]
     = USER_PROVIDED_USER_MANAGED
   \<and> determineKeyKind_loop ''''
     [\<lparr>keyKind = GOOGLE_PROVIDED_USER_MANAGED, explanation = ExplKeyLength1024\<rparr>,
      \<lparr>keyKind = GOOGLE_PROVIDED_SYSTEM_MANAGED, explanation = ExplStandardValidity 5\<rparr>,
      \<lparr>keyKind = USER_PROVIDED_USER_MANAGED, explanation = ExplKeyLengthOther 512\<rparr>]
     = USER_PROVIDED_USER_MANAGED"
  using determineKeyKind_loop_precedence
    [of "[\<lparr>keyKind = GOOGLE_PROVIDED_SYSTEM_MANAGED, explanation = ExplStandardValidity 5\<rparr>,
          \<lparr>keyKind = USER_PROVIDED_USER_MANAGED, explanation = ExplKeyLengthOther 512\<rparr>,
          \<lparr>keyKind = GOOGLE_PROVIDED_USER_MANAGED, explanation = ExplKeyLength1024\<rparr>]"]
  by (simp add: precedence_members precedence_index kinds_distinct)



subsection \<open>Values of the constants\<close>

lemma nat_bitlen_pow2: "nat_bitlen (2 ^ n) = Suc n"
proof (induction n)
  case 0
  show ?case by (simp add: nat_bitlen.simps[of "Suc 0"] nat_bitlen.simps[of 0])
next
  case (Suc n)
  then show ?case by (subst nat_bitlen.simps) simp
qed

lemma BitLen_pow2: "BitLen (2 ^ n) = Suc n"
proof -
  have "nat \<bar>(2::int) ^ n\<bar> = 2 ^ n" by (simp add: nat_power_eq)
  then show ?thesis by (simp only: BitLen_def nat_bitlen_pow2)
qed

lemma unit_values:
  "Hour = 3600000000000" "Minute = 60000000000" "Second = 1000000000"
  by (simp_all add: Hour_def Minute_def Second_def Nanosecond_def)

lemma validity_values:
  "googleProvidedSystemManagedValidityV1 = 1426500000000000"
  "googleProvidedSystemManagedValidityV2Min = 63072000000000000"
  "googleProvidedSystemManagedValidityV2Max = 65750400000000000"
  "legacyGoogleProvidedUserManagedValidity = 315360000000000000"
  "serviceAccountKeyExpiryHours =
     [3600000000000, 28800000000000, 86400000000000, 604800000000000, 1209600000000000,
      2592000000000000, 5184000000000000, 7776000000000000]"
  by (simp_all add: googleProvidedSystemManagedValidityV1_def
      googleProvidedSystemManagedValidityV2Min_def googleProvidedSystemManagedValidityV2Max_def
      legacyGoogleProvidedUserManagedValidity_def serviceAccountKeyExpiryHours_def unit_values)

lemma defaultMaxAfter_value:
  "defaultMaxAfter = \<lparr>unixSec = 253402300799, nsec = 0, loc = UTC\<rparr>"
  by (simp add: defaultMaxAfter_def time_Date_def days_from_civil_def December_def)

lemma slices_Index_from_mem:
  "v \<in> set s \<Longrightarrow> slices_Index_from i s v \<ge> 0"
  by (induction s arbitrary: i) auto

lemma slices_Index_from_absent:
  "v \<notin> set s \<Longrightarrow> slices_Index_from i s v = - 1"
  by (induction s arbitrary: i) auto

lemma slices_Contains_iff: "slices_Contains s v \<longleftrightarrow> v \<in> set s"
  using slices_Index_from_mem[of v s 0] slices_Index_from_absent[of v s 0]
  by (cases "v \<in> set s") (simp_all add: slices_Contains_def slices_Index_def)

subsection \<open>The validity-period check\<close>

text \<open>
  C4. \<open>CheckValidityPeriod\<close> appends exactly one signal, whatever the certificate. A
  \<open>NotAfter\<close> equal to 9999-12-31T23:59:59Z gives the no-expiry signal
  (\<open>GOOGLE_PROVIDED/USER_MANAGED\<close>). For any other \<open>NotAfter\<close> the five conditions on the
  validity window exclude one another, and each gives its own signal: the 10-year legacy
  window \<open>GOOGLE_PROVIDED/USER_MANAGED\<close>, exactly 396h15m \<open>GOOGLE_PROVIDED/SYSTEM_MANAGED\<close>,
  one of the eight organisation-policy durations \<open>GOOGLE_PROVIDED/USER_MANAGED\<close>, strictly
  between 2 years and 2 years + 31 days \<open>GOOGLE_PROVIDED/SYSTEM_MANAGED\<close>, and none of
  these \<open>USER_PROVIDED/USER_MANAGED\<close>.
\<close>

theorem CheckValidityPeriod_windows:
  "\<exists>s. CheckValidityPeriod k = k\<lparr>signals := signals k @ [s]\<rparr>
     \<and> (NotAfter (cert k) = defaultMaxAfter \<longrightarrow>
          s = \<lparr>keyKind = GOOGLE_PROVIDED_USER_MANAGED, explanation = ExplNotAfter (NotAfter (cert k))\<rparr>)
     \<and> (NotAfter (cert k) \<noteq> defaultMaxAfter \<longrightarrow>
          (Time_Sub (NotAfter (cert k)) (NotBefore (cert k)) = legacyGoogleProvidedUserManagedValidity \<longrightarrow>
             s = \<lparr>keyKind = GOOGLE_PROVIDED_USER_MANAGED,
                  explanation = ExplLegacyValidity legacyGoogleProvidedUserManagedValidity\<rparr>)
        \<and> (Time_Sub (NotAfter (cert k)) (NotBefore (cert k)) = googleProvidedSystemManagedValidityV1 \<longrightarrow>
             s = \<lparr>keyKind = GOOGLE_PROVIDED_SYSTEM_MANAGED,
                  explanation = ExplStandardValidity googleProvidedSystemManagedValidityV1\<rparr>)
        \<and> (Time_Sub (NotAfter (cert k)) (NotBefore (cert k)) \<in> set serviceAccountKeyExpiryHours \<longrightarrow>
             s = \<lparr>keyKind = GOOGLE_PROVIDED_USER_MANAGED,
                  explanation = ExplExpiryHoursValidity (Time_Sub (NotAfter (cert k)) (NotBefore (cert k)))\<rparr>)
        \<and> (googleProvidedSystemManagedValidityV2Min < Time_Sub (NotAfter (cert k)) (NotBefore (cert k))
             \<and> Time_Sub (NotAfter (cert k)) (NotBefore (cert k)) < googleProvidedSystemManagedValidityV2Max \<longrightarrow>
             s = \<lparr>keyKind = GOOGLE_PROVIDED_SYSTEM_MANAGED,
                  explanation = ExplBetweenValidity (Time_Sub (NotAfter (cert k)) (NotBefore (cert k)))
                    googleProvidedSystemManagedValidityV2Min googleProvidedSystemManagedValidityV2Max\<rparr>)
        \<and> (Time_Sub (NotAfter (cert k)) (NotBefore (cert k)) \<noteq> legacyGoogleProvidedUserManagedValidity
             \<and> Time_Sub (NotAfter (cert k)) (NotBefore (cert k)) \<noteq> googleProvidedSystemManagedValidityV1
             \<and> Time_Sub (NotAfter (cert k)) (NotBefore (cert k)) \<notin> set serviceAccountKeyExpiryHours
             \<and> \<not> (googleProvidedSystemManagedValidityV2Min < Time_Sub (NotAfter (cert k)) (NotBefore (cert k))
                    \<and> Time_Sub (NotAfter (cert k)) (NotBefore (cert k)) < googleProvidedSystemManagedValidityV2Max) \<longrightarrow>
             s = \<lparr>keyKind = USER_PROVIDED_USER_MANAGED,
                  explanation = ExplNonStandardValidity (Time_Sub (NotAfter (cert k)) (NotBefore (cert k)))
                    (NotBefore (cert k)) (NotAfter (cert k))\<rparr>))"
proof -
  define w where "w = Time_Sub (NotAfter (cert k)) (NotBefore (cert k))"
  have disjoint:
    "legacyGoogleProvidedUserManagedValidity \<noteq> googleProvidedSystemManagedValidityV1"
    "legacyGoogleProvidedUserManagedValidity \<notin> set serviceAccountKeyExpiryHours"
    "\<not> legacyGoogleProvidedUserManagedValidity < googleProvidedSystemManagedValidityV2Max"
    "googleProvidedSystemManagedValidityV1 \<notin> set serviceAccountKeyExpiryHours"
    "\<not> googleProvidedSystemManagedValidityV2Min < googleProvidedSystemManagedValidityV1"
    "\<forall>h\<in>set serviceAccountKeyExpiryHours. \<not> googleProvidedSystemManagedValidityV2Min < h"
    "\<forall>h\<in>set serviceAccountKeyExpiryHours. h \<noteq> legacyGoogleProvidedUserManagedValidity"
    "\<forall>h\<in>set serviceAccountKeyExpiryHours. h \<noteq> googleProvidedSystemManagedValidityV1"
    by (simp_all add: validity_values)
  show ?thesis
    unfolding CheckValidityPeriod_def Let_def w_def[symmetric] slices_Contains_iff append_signal_def
    using disjoint by auto
qed

lemma example_times:
  "time_Date 2024 1 1 0 0 0 0 UTC = \<lparr>unixSec = 1704067200, nsec = 0, loc = UTC\<rparr>"
  "time_Date 2024 1 17 12 15 0 0 UTC = \<lparr>unixSec = 1705493700, nsec = 0, loc = UTC\<rparr>"
  "time_Date 2033 12 29 0 0 0 0 UTC = \<lparr>unixSec = 2019427200, nsec = 0, loc = UTC\<rparr>"
  "time_Date 2024 1 2 0 0 0 0 UTC = \<lparr>unixSec = 1704153600, nsec = 0, loc = UTC\<rparr>"
  "time_Date 2026 1 10 0 0 0 0 UTC = \<lparr>unixSec = 1768003200, nsec = 0, loc = UTC\<rparr>"
  "time_Date 2025 1 1 0 0 0 0 UTC = \<lparr>unixSec = 1735689600, nsec = 0, loc = UTC\<rparr>"
  by (simp_all add: time_Date_def days_from_civil_def)

lemma example_key_fields:
  "NotAfter (cert (NewSAKey p (example_cert\<lparr>NotAfter := t\<rparr>))) = t"
  "NotBefore (cert (NewSAKey p (example_cert\<lparr>NotAfter := t\<rparr>))) = \<lparr>unixSec = 1704067200, nsec = 0, loc = UTC\<rparr>"
  "NotAfter (cert (NewSAKey p example_cert)) = \<lparr>unixSec = 1705493700, nsec = 0, loc = UTC\<rparr>"
  "NotBefore (cert (NewSAKey p example_cert)) = \<lparr>unixSec = 1704067200, nsec = 0, loc = UTC\<rparr>"
  "signals (NewSAKey p c) = []"
  by (simp_all add: NewSAKey_def example_cert_def example_times)

lemma Time_Sub_seconds:
  "\<bar>a - b\<bar> < 9000000000 \<Longrightarrow>
   Time_Sub \<lparr>unixSec = a, nsec = 0, loc = l\<rparr> \<lparr>unixSec = b, nsec = 0, loc = l'\<rparr> = (a - b) * 1000000000"
proof -
  assume "\<bar>a - b\<bar> < 9000000000"
  then have "(a - b) * 1000000000 \<le> 2 ^ 63 - 1" "- (2 ^ 63) \<le> (a - b) * 1000000000"
    by simp_all
  then show ?thesis
    by (simp add: Time_Sub_def unit_values maxDuration_def minDuration_def Let_def)
qed

lemma signals_after_append:
  "r = k\<lparr>signals := signals k @ [s]\<rparr> \<Longrightarrow> signals k = [] \<Longrightarrow> map keyKind (signals r) = [keyKind s]"
  by simp

theorem CheckValidityPeriod_windows_witness:
  "map keyKind (signals (CheckValidityPeriod
       (NewSAKey example_principal (example_cert\<lparr>NotAfter := defaultMaxAfter\<rparr>))))
     = [GOOGLE_PROVIDED_USER_MANAGED]
   \<and> map keyKind (signals (CheckValidityPeriod
       (NewSAKey example_principal (example_cert\<lparr>NotAfter := time_Date 2033 12 29 0 0 0 0 UTC\<rparr>))))
     = [GOOGLE_PROVIDED_USER_MANAGED]
   \<and> map keyKind (signals (CheckValidityPeriod (NewSAKey example_principal example_cert)))
     = [GOOGLE_PROVIDED_SYSTEM_MANAGED]
   \<and> map keyKind (signals (CheckValidityPeriod
       (NewSAKey example_principal (example_cert\<lparr>NotAfter := time_Date 2024 1 2 0 0 0 0 UTC\<rparr>))))
     = [GOOGLE_PROVIDED_USER_MANAGED]
   \<and> map keyKind (signals (CheckValidityPeriod
       (NewSAKey example_principal (example_cert\<lparr>NotAfter := time_Date 2026 1 10 0 0 0 0 UTC\<rparr>))))
     = [GOOGLE_PROVIDED_SYSTEM_MANAGED]
   \<and> map keyKind (signals (CheckValidityPeriod
       (NewSAKey example_principal (example_cert\<lparr>NotAfter := time_Date 2025 1 1 0 0 0 0 UTC\<rparr>))))
     = [USER_PROVIDED_USER_MANAGED]"
proof -
  let ?k1 = "NewSAKey example_principal (example_cert\<lparr>NotAfter := defaultMaxAfter\<rparr>)"
  let ?k2 = "NewSAKey example_principal (example_cert\<lparr>NotAfter := time_Date 2033 12 29 0 0 0 0 UTC\<rparr>)"
  let ?k3 = "NewSAKey example_principal example_cert"
  let ?k4 = "NewSAKey example_principal (example_cert\<lparr>NotAfter := time_Date 2024 1 2 0 0 0 0 UTC\<rparr>)"
  let ?k5 = "NewSAKey example_principal (example_cert\<lparr>NotAfter := time_Date 2026 1 10 0 0 0 0 UTC\<rparr>)"
  let ?k6 = "NewSAKey example_principal (example_cert\<lparr>NotAfter := time_Date 2025 1 1 0 0 0 0 UTC\<rparr>)"
  have c1: "map keyKind (signals (CheckValidityPeriod ?k1)) = [GOOGLE_PROVIDED_USER_MANAGED]"
  proof -
    have "NotAfter (cert ?k1) = defaultMaxAfter" by (simp only: example_key_fields)
    with CheckValidityPeriod_windows[of ?k1] obtain s
      where "CheckValidityPeriod ?k1 = ?k1\<lparr>signals := signals ?k1 @ [s]\<rparr>"
        and "keyKind s = GOOGLE_PROVIDED_USER_MANAGED" by auto
    then show ?thesis using signals_after_append example_key_fields(5) by metis
  qed
  have c2: "map keyKind (signals (CheckValidityPeriod ?k2)) = [GOOGLE_PROVIDED_USER_MANAGED]"
  proof -
    have "NotAfter (cert ?k2) \<noteq> defaultMaxAfter"
      by (simp add: example_key_fields example_times defaultMaxAfter_value)
    moreover have "Time_Sub (NotAfter (cert ?k2)) (NotBefore (cert ?k2)) = legacyGoogleProvidedUserManagedValidity"
      by (simp add: example_key_fields example_times Time_Sub_seconds validity_values)
    ultimately obtain s
      where "CheckValidityPeriod ?k2 = ?k2\<lparr>signals := signals ?k2 @ [s]\<rparr>"
        and "keyKind s = GOOGLE_PROVIDED_USER_MANAGED"
      using CheckValidityPeriod_windows[of ?k2] by auto
    then show ?thesis using signals_after_append example_key_fields(5) by metis
  qed
  have c3: "map keyKind (signals (CheckValidityPeriod ?k3)) = [GOOGLE_PROVIDED_SYSTEM_MANAGED]"
  proof -
    have "NotAfter (cert ?k3) \<noteq> defaultMaxAfter"
      by (simp add: example_key_fields defaultMaxAfter_value)
    moreover have "Time_Sub (NotAfter (cert ?k3)) (NotBefore (cert ?k3)) = googleProvidedSystemManagedValidityV1"
      by (simp add: example_key_fields Time_Sub_seconds validity_values)
    ultimately obtain s
      where "CheckValidityPeriod ?k3 = ?k3\<lparr>signals := signals ?k3 @ [s]\<rparr>"
        and "keyKind s = GOOGLE_PROVIDED_SYSTEM_MANAGED"
      using CheckValidityPeriod_windows[of ?k3] by auto
    then show ?thesis using signals_after_append example_key_fields(5) by metis
  qed
  have c4: "map keyKind (signals (CheckValidityPeriod ?k4)) = [GOOGLE_PROVIDED_USER_MANAGED]"
  proof -
    have "NotAfter (cert ?k4) \<noteq> defaultMaxAfter"
      by (simp add: example_key_fields example_times defaultMaxAfter_value)
    moreover have "Time_Sub (NotAfter (cert ?k4)) (NotBefore (cert ?k4)) \<in> set serviceAccountKeyExpiryHours"
      by (simp add: example_key_fields example_times Time_Sub_seconds validity_values)
    ultimately obtain s
      where "CheckValidityPeriod ?k4 = ?k4\<lparr>signals := signals ?k4 @ [s]\<rparr>"
        and "keyKind s = GOOGLE_PROVIDED_USER_MANAGED"
      using CheckValidityPeriod_windows[of ?k4] by auto
    then show ?thesis using signals_after_append example_key_fields(5) by metis
  qed
  have c5: "map keyKind (signals (CheckValidityPeriod ?k5)) = [GOOGLE_PROVIDED_SYSTEM_MANAGED]"
  proof -
    have "NotAfter (cert ?k5) \<noteq> defaultMaxAfter"
      by (simp add: example_key_fields example_times defaultMaxAfter_value)
    moreover have "googleProvidedSystemManagedValidityV2Min < Time_Sub (NotAfter (cert ?k5)) (NotBefore (cert ?k5))
        \<and> Time_Sub (NotAfter (cert ?k5)) (NotBefore (cert ?k5)) < googleProvidedSystemManagedValidityV2Max"
      by (simp add: example_key_fields example_times Time_Sub_seconds validity_values)
    ultimately obtain s
      where "CheckValidityPeriod ?k5 = ?k5\<lparr>signals := signals ?k5 @ [s]\<rparr>"
        and "keyKind s = GOOGLE_PROVIDED_SYSTEM_MANAGED"
      using CheckValidityPeriod_windows[of ?k5] by auto
    then show ?thesis using signals_after_append example_key_fields(5) by metis
  qed
  have c6: "map keyKind (signals (CheckValidityPeriod ?k6)) = [USER_PROVIDED_USER_MANAGED]"
  proof -
    have "NotAfter (cert ?k6) \<noteq> defaultMaxAfter"
      by (simp add: example_key_fields example_times defaultMaxAfter_value)
    moreover have "Time_Sub (NotAfter (cert ?k6)) (NotBefore (cert ?k6)) \<noteq> legacyGoogleProvidedUserManagedValidity
        \<and> Time_Sub (NotAfter (cert ?k6)) (NotBefore (cert ?k6)) \<noteq> googleProvidedSystemManagedValidityV1
        \<and> Time_Sub (NotAfter (cert ?k6)) (NotBefore (cert ?k6)) \<notin> set serviceAccountKeyExpiryHours
        \<and> \<not> (googleProvidedSystemManagedValidityV2Min < Time_Sub (NotAfter (cert ?k6)) (NotBefore (cert ?k6))
              \<and> Time_Sub (NotAfter (cert ?k6)) (NotBefore (cert ?k6)) < googleProvidedSystemManagedValidityV2Max)"
      by (simp add: example_key_fields example_times Time_Sub_seconds validity_values)
    ultimately obtain s
      where "CheckValidityPeriod ?k6 = ?k6\<lparr>signals := signals ?k6 @ [s]\<rparr>"
        and "keyKind s = USER_PROVIDED_USER_MANAGED"
      using CheckValidityPeriod_windows[of ?k6] by auto
    then show ?thesis using signals_after_append example_key_fields(5) by metis
  qed
  from c1 c2 c3 c4 c5 c6 show ?thesis by (intro conjI)
qed




subsection \<open>The name check\<close>

text \<open>
  \<open>strings.Replace(sa, "@", ".", 1)\<close> is the principal with its first \<open>@\<close> turned into a
  dot.
\<close>

lemma strings_Replace_zero: "strings_Replace s old new 0 = s"
  by (cases s) simp_all

lemma strings_Replace_first_at:
  "strings_Replace sa ''@'' ''.'' 1 = spec_expectedName sa"
proof (induction sa)
  case Nil
  show ?case by (simp add: spec_expectedName_def)
next
  case (Cons c cs)
  show ?case
  proof (cases "c = CHR ''@''")
    case True
    then show ?thesis by (simp add: spec_expectedName_def strings_Replace_zero)
  next
    case False
    with Cons show ?thesis by (simp add: spec_expectedName_def)
  qed
qed

lemma checkName_explained:
  "checkName (spec_expectedName sa) (spec_truncatedName sa) t v k
     = k\<lparr>signals := signals k @
          [\<lparr>keyKind = spec_nameKind sa v,
            explanation =
              (if GAIA_ID_MatchString v then ExplGaiaID t v
               else if v = spec_expectedName sa then ExplExpectedName t v (spec_expectedName sa)
               else if spec_truncatedName sa \<noteq> '''' \<and> v = spec_truncatedName sa
                 then ExplTruncatedName t v (spec_truncatedName sa)
               else ExplNoExpectedName t v (spec_expectedName sa))\<rparr>]\<rparr>"
  by (simp add: checkName_def spec_nameKind_def append_signal_def)

lemma checkName_kind:
  "\<exists>e. checkName (spec_expectedName sa) (spec_truncatedName sa) t v k
     = k\<lparr>signals := signals k @ [\<lparr>keyKind = spec_nameKind sa v, explanation = e\<rparr>]\<rparr>"
  by (rule exI, rule checkName_explained)

lemma checkNames_appends:
  "\<exists>e1 e2. checkNames k
     = k\<lparr>signals := signals k @
          [\<lparr>keyKind = spec_nameKind (serviceAccount k) (Subject_CommonName (cert k)), explanation = e1\<rparr>,
           \<lparr>keyKind = spec_nameKind (serviceAccount k) (Issuer_CommonName (cert k)), explanation = e2\<rparr>]\<rparr>"
proof -
  define en where "en = spec_expectedName (serviceAccount k)"
  define tn where "tn = spec_truncatedName (serviceAccount k)"
  have tr: "(if 64 \<le> length en then take 64 en else '''') = tn"
    by (simp add: spec_truncatedName_def en_def tn_def)
  define k1 where "k1 = checkName en tn ''SubjectCN'' (Subject_CommonName (cert k)) k"
  obtain e1 where first: "k1
      = k\<lparr>signals := signals k @
           [\<lparr>keyKind = spec_nameKind (serviceAccount k) (Subject_CommonName (cert k)), explanation = e1\<rparr>]\<rparr>"
    unfolding k1_def en_def tn_def using checkName_kind by blast
  obtain e2 where second: "checkName en tn ''IssuerCN'' (Issuer_CommonName (cert k1)) k1
      = k1\<lparr>signals := signals k1 @
           [\<lparr>keyKind = spec_nameKind (serviceAccount k) (Issuer_CommonName (cert k1)), explanation = e2\<rparr>]\<rparr>"
    unfolding en_def tn_def using checkName_kind by blast
  have "checkNames k = checkName en tn ''IssuerCN'' (Issuer_CommonName (cert k1)) k1"
    unfolding checkNames_def Let_def strings_Replace_first_at en_def[symmetric] tr k1_def[symmetric]
    by (rule refl)
  also note second
  also have "k1\<lparr>signals := signals k1 @
           [\<lparr>keyKind = spec_nameKind (serviceAccount k) (Issuer_CommonName (cert k1)), explanation = e2\<rparr>]\<rparr>
     = k\<lparr>signals := signals k @
          [\<lparr>keyKind = spec_nameKind (serviceAccount k) (Subject_CommonName (cert k)), explanation = e1\<rparr>,
           \<lparr>keyKind = spec_nameKind (serviceAccount k) (Issuer_CommonName (cert k)), explanation = e2\<rparr>]\<rparr>"
    by (simp add: first)
  finally show ?thesis by blast
qed

text \<open>
  C8. \<open>checkNames\<close> appends exactly two signals, the first for the subject common name
  and the second for the issuer common name. The kind of each is
  \<open>GOOGLE_PROVIDED/USER_MANAGED\<close> when the name matches \<open>^1[0-9]{20}$\<close>, otherwise
  \<open>GOOGLE_PROVIDED/SYSTEM_MANAGED\<close> when it equals the expected name (the principal with
  only its first \<open>@\<close> replaced by a dot) or the non-empty truncated name (the first 64
  bytes of an expected name of at least 64), and \<open>USER_PROVIDED/USER_MANAGED\<close> otherwise.
\<close>

theorem checkNames_two_signals:
  "\<exists>e1 e2. checkNames k
     = k\<lparr>signals := signals k @
          [\<lparr>keyKind = spec_nameKind (serviceAccount k) (Subject_CommonName (cert k)), explanation = e1\<rparr>,
           \<lparr>keyKind = spec_nameKind (serviceAccount k) (Issuer_CommonName (cert k)), explanation = e2\<rparr>]\<rparr>"
  by (rule checkNames_appends)

theorem checkNames_two_signals_witness:
  "map keyKind (signals (checkNames (NewSAKey example_principal example_cert)))
     = [GOOGLE_PROVIDED_SYSTEM_MANAGED, GOOGLE_PROVIDED_SYSTEM_MANAGED]
   \<and> map keyKind (signals (checkNames (NewSAKey example_principal
         (example_cert\<lparr>Subject_CommonName := ''100000000000000000000'', Issuer_CommonName := ''example.org''\<rparr>))))
     = [GOOGLE_PROVIDED_USER_MANAGED, USER_PROVIDED_USER_MANAGED]"
proof -
  have en: "spec_expectedName example_principal = ''scanner.my-project.iam.gserviceaccount.com''"
    by (simp add: spec_expectedName_def example_principal_def)
  have tn: "spec_truncatedName example_principal = ''''"
    by (simp add: spec_truncatedName_def en)
  have kinds: "spec_nameKind example_principal ''scanner.my-project.iam.gserviceaccount.com''
       = GOOGLE_PROVIDED_SYSTEM_MANAGED"
    "spec_nameKind example_principal ''100000000000000000000'' = GOOGLE_PROVIDED_USER_MANAGED"
    "spec_nameKind example_principal ''example.org'' = USER_PROVIDED_USER_MANAGED"
    by (simp_all add: spec_nameKind_def en tn GAIA_ID_MatchString_def is_digit_def)
  have names: "Subject_CommonName example_cert = ''scanner.my-project.iam.gserviceaccount.com''"
    "Issuer_CommonName example_cert = ''scanner.my-project.iam.gserviceaccount.com''"
    by (simp_all add: example_cert_def)
  show ?thesis
    using checkNames_two_signals [of "NewSAKey example_principal example_cert"]
      checkNames_two_signals [of "NewSAKey example_principal
         (example_cert\<lparr>Subject_CommonName := ''100000000000000000000'', Issuer_CommonName := ''example.org''\<rparr>)"]
    by (auto simp: NewSAKey_def kinds names)
qed


subsection \<open>The crypto check\<close>

lemma example_ecdsa_fields:
  "PublicKeyAlgorithm example_ecdsa_cert = ECDSA"
  "SignatureAlgorithm example_ecdsa_cert = ECDSAWithSHA256"
  "PublicKey example_ecdsa_cert = other_PublicKey ''*ecdsa.PublicKey''"
  by (simp_all add: example_ecdsa_cert_def)

lemma append_signal_fields:
  "cert (append_signal k kind ex) = cert k"
  "serviceAccount (append_signal k kind ex) = serviceAccount k"
  "resKeyKind (append_signal k kind ex) = resKeyKind k"
  "signals (append_signal k kind ex) = signals k @ [\<lparr>keyKind = kind, explanation = ex\<rparr>]"
  by (simp_all add: append_signal_def)

lemma checkCrypto_panics_iff:
  "(\<exists>p. checkCrypto k = Inl p) \<longleftrightarrow> (\<forall>n e. PublicKey (cert k) \<noteq> rsa_PublicKey n e)"
  by (cases "PublicKey (cert k)")
     (simp_all add: checkCrypto_def Let_def rsa_BitLen_def append_signal_fields)

text \<open>
  C1. The crypto check on a certificate that carries an ECDSA key: after the
  \<open>not RSA\<close> signal is appended, the bit length is read through the type assertion
  \<open>PublicKey.(*rsa.PublicKey)\<close> all the same, and the check panics instead of returning.
\<close>

theorem checkCrypto_ecdsa_panics:
  "checkCrypto (NewSAKey example_principal example_ecdsa_cert)
     = Inl (TypeAssertionPanic ''*ecdsa.PublicKey'')"
  by (simp add: checkCrypto_def Let_def rsa_BitLen_def append_signal_fields NewSAKey_def
      example_ecdsa_fields dynamic_type_def)

subsection \<open>What a check appends depends on the principal and the certificate only\<close>

lemma NewSAKey_fields:
  "serviceAccount (NewSAKey sa c) = sa" "cert (NewSAKey sa c) = c"
  "signals (NewSAKey sa c) = []" "resKeyKind (NewSAKey sa c) = ''''"
  by (simp_all add: NewSAKey_def)

lemma checkName_frame:
  "checkName en tn t v k = k\<lparr>signals := signals k @ signals (checkName en tn t v (NewSAKey sa c))\<rparr>"
  by (simp add: checkName_def append_signal_def NewSAKey_def)

lemma checkNames_signals:
  fixes k :: SAKey
  defines "F \<equiv> NewSAKey (serviceAccount k) (cert k)"
  defines "en \<equiv> strings_Replace (serviceAccount k) ''@'' ''.'' 1"
  defines "tn \<equiv> (if length en \<ge> 64 then take 64 en else '''')"
  shows "checkNames k
     = k\<lparr>signals := signals k
           @ signals (checkName en tn ''SubjectCN'' (Subject_CommonName (cert k)) F)
           @ signals (checkName en tn ''IssuerCN'' (Issuer_CommonName (cert k)) F)\<rparr>"
proof -
  define k1 where "k1 = checkName en tn ''SubjectCN'' (Subject_CommonName (cert k)) k"
  have k1: "k1 = k\<lparr>signals := signals k
           @ signals (checkName en tn ''SubjectCN'' (Subject_CommonName (cert k)) F)\<rparr>"
    unfolding k1_def F_def by (rule checkName_frame)
  have c1: "cert k1 = cert k" by (simp add: k1)
  have "checkNames k = checkName en tn ''IssuerCN'' (Issuer_CommonName (cert k1)) k1"
    unfolding checkNames_def Let_def en_def[symmetric] tn_def[symmetric] k1_def[symmetric]
    by (rule refl)
  also have "\<dots> = k1\<lparr>signals := signals k1
           @ signals (checkName en tn ''IssuerCN'' (Issuer_CommonName (cert k1)) F)\<rparr>"
    unfolding F_def by (rule checkName_frame)
  also have "\<dots> = k\<lparr>signals := signals k
           @ signals (checkName en tn ''SubjectCN'' (Subject_CommonName (cert k)) F)
           @ signals (checkName en tn ''IssuerCN'' (Issuer_CommonName (cert k)) F)\<rparr>"
    unfolding c1 by (simp add: k1)
  finally show ?thesis .
qed

lemma checkNames_frame:
  "checkNames k = k\<lparr>signals := signals k @ signals (checkNames (NewSAKey (serviceAccount k) (cert k)))\<rparr>"
proof -
  have "signals (checkNames (NewSAKey (serviceAccount k) (cert k)))
      = signals (checkName (strings_Replace (serviceAccount k) ''@'' ''.'' 1)
           (if length (strings_Replace (serviceAccount k) ''@'' ''.'' 1) \<ge> 64
            then take 64 (strings_Replace (serviceAccount k) ''@'' ''.'' 1) else '''')
           ''SubjectCN'' (Subject_CommonName (cert k)) (NewSAKey (serviceAccount k) (cert k)))
        @ signals (checkName (strings_Replace (serviceAccount k) ''@'' ''.'' 1)
           (if length (strings_Replace (serviceAccount k) ''@'' ''.'' 1) \<ge> 64
            then take 64 (strings_Replace (serviceAccount k) ''@'' ''.'' 1) else '''')
           ''IssuerCN'' (Issuer_CommonName (cert k)) (NewSAKey (serviceAccount k) (cert k)))"
    by (subst checkNames_signals) (simp add: NewSAKey_fields del: One_nat_def)
  then show ?thesis by (subst checkNames_signals) (simp del: One_nat_def)
qed

lemma CheckValidityPeriod_frame:
  "CheckValidityPeriod k
     = k\<lparr>signals := signals k @ signals (CheckValidityPeriod (NewSAKey (serviceAccount k) (cert k)))\<rparr>"
  by (simp add: CheckValidityPeriod_def append_signal_def NewSAKey_def Let_def)

lemma CheckExtensions_frame:
  "CheckExtensions k
     = k\<lparr>signals := signals k @ signals (CheckExtensions (NewSAKey (serviceAccount k) (cert k)))\<rparr>"
  by (simp add: CheckExtensions_def append_signal_def NewSAKey_def Let_def)

lemma checkCrypto_frame:
  "checkCrypto k
     = (case checkCrypto (NewSAKey (serviceAccount k) (cert k)) of
          Inl p \<Rightarrow> Inl p
        | Inr k0 \<Rightarrow> Inr (k\<lparr>signals := signals k @ signals k0\<rparr>))"
  by (cases "PublicKey (cert k)")
     (simp_all add: checkCrypto_def rsa_BitLen_def append_signal_def NewSAKey_def Let_def)

lemma frames_upd:
  "checkNames (k\<lparr>signals := S\<rparr>)
     = k\<lparr>signals := S @ signals (checkNames (NewSAKey (serviceAccount k) (cert k)))\<rparr>"
  "CheckValidityPeriod (k\<lparr>signals := S\<rparr>)
     = k\<lparr>signals := S @ signals (CheckValidityPeriod (NewSAKey (serviceAccount k) (cert k)))\<rparr>"
  "CheckExtensions (k\<lparr>signals := S\<rparr>)
     = k\<lparr>signals := S @ signals (CheckExtensions (NewSAKey (serviceAccount k) (cert k)))\<rparr>"
  using checkNames_frame[of "k\<lparr>signals := S\<rparr>"] CheckValidityPeriod_frame[of "k\<lparr>signals := S\<rparr>"]
    CheckExtensions_frame[of "k\<lparr>signals := S\<rparr>"]
  by simp_all

lemma checkCrypto_frame_upd:
  "checkCrypto (k\<lparr>signals := S\<rparr>)
     = (case checkCrypto (NewSAKey (serviceAccount k) (cert k)) of
          Inl p \<Rightarrow> Inl p
        | Inr k0 \<Rightarrow> Inr (k\<lparr>signals := S @ signals k0\<rparr>))"
  using checkCrypto_frame[of "k\<lparr>signals := S\<rparr>"]
  by (cases "checkCrypto (NewSAKey (serviceAccount k) (cert k))") simp_all

lemma check_signals:
  fixes k :: SAKey
  defines "F \<equiv> NewSAKey (serviceAccount k) (cert k)"
  shows "check (k\<lparr>signals := S\<rparr>)
     = (case checkCrypto F of
          Inl p \<Rightarrow> Inl p
        | Inr k0 \<Rightarrow> Inr (k\<lparr>signals := S @ signals (checkNames F) @ signals k0
                            @ signals (CheckValidityPeriod F) @ signals (CheckExtensions F)\<rparr>))"
  unfolding check_def frames_upd checkCrypto_frame_upd F_def[symmetric]
  by (cases "checkCrypto F") (simp_all add: frames_upd F_def[symmetric])

lemma check_frame:
  "check k = (case classify (serviceAccount k) (cert k) of
                Inl p \<Rightarrow> Inl p
              | Inr new \<Rightarrow> Inr (k\<lparr>signals := signals k @ new\<rparr>))"
proof -
  define F where "F = NewSAKey (serviceAccount k) (cert k)"
  have F_id: "F\<lparr>signals := []\<rparr> = F" "serviceAccount F = serviceAccount k" "cert F = cert k"
    by (simp_all add: F_def NewSAKey_def)
  have cl: "check F = (case checkCrypto F of
          Inl p \<Rightarrow> Inl p
        | Inr k0 \<Rightarrow> Inr (F\<lparr>signals := [] @ signals (checkNames F) @ signals k0
                            @ signals (CheckValidityPeriod F) @ signals (CheckExtensions F)\<rparr>))"
    using check_signals[where k=F and S="[]"] unfolding F_id F_def[symmetric] .
  have "check k = check (k\<lparr>signals := signals k\<rparr>)" by simp
  also have "\<dots> = (case checkCrypto F of
          Inl p \<Rightarrow> Inl p
        | Inr k0 \<Rightarrow> Inr (k\<lparr>signals := signals k @ signals (checkNames F) @ signals k0
                            @ signals (CheckValidityPeriod F) @ signals (CheckExtensions F)\<rparr>))"
    unfolding F_def by (rule check_signals)
  finally show ?thesis
    unfolding classify_def F_def[symmetric] cl
    by (cases "checkCrypto F") simp_all
qed

subsection \<open>Every signal carries one of the three kinds; the list is never empty\<close>

lemma kinds_valid:
  "USER_PROVIDED_USER_MANAGED \<in> set keyKindPrecedence"
  "GOOGLE_PROVIDED_USER_MANAGED \<in> set keyKindPrecedence"
  "GOOGLE_PROVIDED_SYSTEM_MANAGED \<in> set keyKindPrecedence"
  by (simp_all add: keyKindPrecedence_def)

lemma append_signal_valid:
  "kind \<in> set keyKindPrecedence \<Longrightarrow> list_all (\<lambda>s. keyKind s \<in> set keyKindPrecedence) (signals k)
   \<Longrightarrow> list_all (\<lambda>s. keyKind s \<in> set keyKindPrecedence) (signals (append_signal k kind ex))"
  by (simp add: append_signal_def)

lemma checkName_valid:
  "list_all (\<lambda>s. keyKind s \<in> set keyKindPrecedence) (signals k)
   \<Longrightarrow> list_all (\<lambda>s. keyKind s \<in> set keyKindPrecedence) (signals (checkName en tn t v k))"
  unfolding checkName_def by (simp add: append_signal_valid kinds_valid)

lemma checkNames_valid:
  "list_all (\<lambda>s. keyKind s \<in> set keyKindPrecedence) (signals k)
   \<Longrightarrow> list_all (\<lambda>s. keyKind s \<in> set keyKindPrecedence) (signals (checkNames k))"
  unfolding checkNames_def Let_def by (intro checkName_valid)

lemma checkCrypto_valid:
  assumes "checkCrypto k = Inr k'"
    and "list_all (\<lambda>s. keyKind s \<in> set keyKindPrecedence) (signals k)"
  shows "list_all (\<lambda>s. keyKind s \<in> set keyKindPrecedence) (signals k')"
  using assms unfolding checkCrypto_def Let_def
  by (auto simp: append_signal_valid kinds_valid append_signal_fields split: sum.splits if_splits)

lemma CheckValidityPeriod_valid:
  "list_all (\<lambda>s. keyKind s \<in> set keyKindPrecedence) (signals k)
   \<Longrightarrow> list_all (\<lambda>s. keyKind s \<in> set keyKindPrecedence) (signals (CheckValidityPeriod k))"
  unfolding CheckValidityPeriod_def Let_def by (simp add: append_signal_valid kinds_valid)

lemma CheckExtensions_valid:
  "list_all (\<lambda>s. keyKind s \<in> set keyKindPrecedence) (signals k)
   \<Longrightarrow> list_all (\<lambda>s. keyKind s \<in> set keyKindPrecedence) (signals (CheckExtensions k))"
  unfolding CheckExtensions_def Let_def
  by (simp add: append_signal_valid kinds_valid append_signal_fields)

lemma check_valid:
  assumes "check k = Inr k'"
    and "list_all (\<lambda>s. keyKind s \<in> set keyKindPrecedence) (signals k)"
  shows "list_all (\<lambda>s. keyKind s \<in> set keyKindPrecedence) (signals k')"
proof -
  from assms(1) obtain k2 where k2: "checkCrypto (checkNames k) = Inr k2"
    and k': "k' = CheckExtensions (CheckValidityPeriod k2)"
    by (auto simp: check_def split: sum.splits)
  have "list_all (\<lambda>s. keyKind s \<in> set keyKindPrecedence) (signals k2)"
    using checkCrypto_valid[OF k2 checkNames_valid[OF assms(2)]] .
  then show ?thesis unfolding k' by (intro CheckExtensions_valid CheckValidityPeriod_valid)
qed

lemma CheckValidityPeriod_nonempty: "signals (CheckValidityPeriod k) \<noteq> []"
  unfolding CheckValidityPeriod_def Let_def by (simp add: append_signal_fields)

lemma CheckExtensions_nonempty: "signals k \<noteq> [] \<Longrightarrow> signals (CheckExtensions k) \<noteq> []"
  unfolding CheckExtensions_def Let_def by (simp add: append_signal_fields)

lemma check_nonempty: "check k = Inr k' \<Longrightarrow> signals k' \<noteq> []"
  by (auto simp: check_def CheckExtensions_nonempty CheckValidityPeriod_nonempty split: sum.splits)

lemma check_returns_iff:
  "(\<exists>k'. check k = Inr k') \<longleftrightarrow> (\<exists>n e. PublicKey (cert k) = rsa_PublicKey n e)"
proof -
  have "cert (checkNames k) = cert k" by (subst checkNames_frame) simp
  with checkCrypto_panics_iff[of "checkNames k"] show ?thesis
    by (cases "checkCrypto (checkNames k)") (auto simp: check_def)
qed

lemma determineKeyKind_no_signals_unreachable:
  "determineKeyKind k \<noteq> Inl (Panic ''No signals found for key'')"
proof (cases "check k")
  case (Inl p)
  then obtain q where "checkCrypto (checkNames k) = Inl q" and "q = p"
    by (auto simp: check_def split: sum.splits)
  then have "\<exists>ty. p = TypeAssertionPanic ty"
    by (auto simp: checkCrypto_def Let_def rsa_BitLen_def split: PublicKey.splits if_splits)
  with Inl show ?thesis by (auto simp: determineKeyKind_def)
next
  case (Inr k')
  with check_nonempty[OF Inr] show ?thesis by (simp add: determineKeyKind_def Let_def)
qed

text \<open>
  C5. Classification of a certificate that carries an ECDSA key returns no signal list:
  \<open>check\<close> on the fresh key panics in the crypto check, and so does
  \<open>determineKeyKind\<close>. (The branch
  \<open>No signals found for key\<close> itself is never taken, and \<open>check\<close> returns a non-empty
  list whenever the key is an RSA key: \<open>determineKeyKind_no_signals_unreachable\<close>,
  \<open>check_returns_iff\<close>, \<open>check_nonempty\<close>.)
\<close>

theorem check_ecdsa_panics:
  "classify example_principal example_ecdsa_cert = Inl (TypeAssertionPanic ''*ecdsa.PublicKey'')
   \<and> determineKeyKind (NewSAKey example_principal example_ecdsa_cert)
       = Inl (TypeAssertionPanic ''*ecdsa.PublicKey'')"
proof -
  have "cert (checkNames (NewSAKey example_principal example_ecdsa_cert)) = example_ecdsa_cert"
    by (subst checkNames_frame) (simp add: NewSAKey_fields)
  then have "checkCrypto (checkNames (NewSAKey example_principal example_ecdsa_cert))
      = Inl (TypeAssertionPanic ''*ecdsa.PublicKey'')"
    by (simp add: checkCrypto_def Let_def rsa_BitLen_def append_signal_fields
        example_ecdsa_fields dynamic_type_def)
  then show ?thesis by (simp add: check_def determineKeyKind_def classify_def)
qed

subsection \<open>Repeated kind determination\<close>

lemma loop_twice:
  assumes "sigs \<noteq> []" and "list_all (\<lambda>s. keyKind s \<in> set keyKindPrecedence) sigs"
  shows "determineKeyKind_loop '''' (sigs @ sigs) = determineKeyKind_loop '''' sigs"
proof -
  from assms(2) have "\<forall>s\<in>set sigs. keyKind s \<in> set keyKindPrecedence"
    by (simp add: list_all_iff)
  from loop_set_cong[OF assms(1) this, of "sigs @ sigs"] show ?thesis by simp
qed

lemma determineKeyKind_fresh:
  assumes "determineKeyKind (NewSAKey sa c) = Inr (res, k1)"
  shows "\<exists>new. classify sa c = Inr new \<and> new \<noteq> []
           \<and> list_all (\<lambda>s. keyKind s \<in> set keyKindPrecedence) new
           \<and> res = determineKeyKind_loop '''' new
           \<and> k1 = \<lparr>serviceAccount = sa, cert = c, signals = new, resKeyKind = res\<rparr>"
proof -
  from assms obtain k' where chk: "check (NewSAKey sa c) = Inr k'"
    by (auto simp: determineKeyKind_def split: sum.splits)
  from check_frame[of "NewSAKey sa c"] chk obtain new where cl: "classify sa c = Inr new"
    and k': "k' = (NewSAKey sa c)\<lparr>signals := new\<rparr>"
    by (auto simp: NewSAKey_fields split: sum.splits)
  have ne: "new \<noteq> []" using check_nonempty[OF chk] by (simp add: k')
  have v: "list_all (\<lambda>s. keyKind s \<in> set keyKindPrecedence) new"
    using check_valid[OF chk] by (simp add: k' NewSAKey_fields)
  from assms chk ne have "res = determineKeyKind_loop '''' new"
    and "k1 = k'\<lparr>resKeyKind := res\<rparr>"
    by (auto simp: determineKeyKind_def Let_def k')
  then show ?thesis using cl ne v by (simp add: k' NewSAKey_def)
qed

text \<open>
  C9, as amended. When \<open>determineKeyKind\<close> returns on a fresh key it leaves the
  principal and the certificate unchanged, the signal list is the non-empty list
  \<open>classify\<close> gives for them, and a fresh key for the same principal and certificate
  gives the same kind and the same key again. A second call on the same key returns the
  same kind, and the signal list it leaves is the first list twice over.
\<close>

theorem determineKeyKind_repeated:
  assumes "determineKeyKind (NewSAKey sa c) = Inr (res, k1)"
  shows "serviceAccount k1 = sa \<and> cert k1 = c \<and> resKeyKind k1 = res \<and> signals k1 \<noteq> []
       \<and> classify sa c = Inr (signals k1)
       \<and> determineKeyKind (NewSAKey (serviceAccount k1) (cert k1)) = Inr (res, k1)
       \<and> determineKeyKind k1 = Inr (res, k1\<lparr>signals := signals k1 @ signals k1\<rparr>)"
proof -
  from determineKeyKind_fresh[OF assms] obtain new where cl: "classify sa c = Inr new"
    and ne: "new \<noteq> []" and v: "list_all (\<lambda>s. keyKind s \<in> set keyKindPrecedence) new"
    and res: "res = determineKeyKind_loop '''' new"
    and k1: "k1 = \<lparr>serviceAccount = sa, cert = c, signals = new, resKeyKind = res\<rparr>"
    by blast
  have again: "check k1 = Inr (k1\<lparr>signals := new @ new\<rparr>)"
    using check_frame[of k1] cl by (simp add: k1)
  have "determineKeyKind k1 = Inr (res, k1\<lparr>signals := new @ new\<rparr>)"
    unfolding determineKeyKind_def again
    using ne loop_twice[OF ne v] by (simp add: Let_def res k1)
  moreover have "signals k1 = new" by (simp add: k1)
  ultimately show ?thesis using assms cl ne by (simp add: k1)
qed

subsection \<open>The example key\<close>

lemma example_cert_fields:
  "NotBefore example_cert = \<lparr>unixSec = 1704067200, nsec = 0, loc = UTC\<rparr>"
  "NotAfter example_cert = \<lparr>unixSec = 1705493700, nsec = 0, loc = UTC\<rparr>"
  "Subject_CommonName example_cert = ''scanner.my-project.iam.gserviceaccount.com''"
  "Issuer_CommonName example_cert = ''scanner.my-project.iam.gserviceaccount.com''"
  "PublicKeyAlgorithm example_cert = RSA"
  "SignatureAlgorithm example_cert = SHA1WithRSA"
  "ExtKeyUsage example_cert = [ExtKeyUsageClientAuth]"
  "KeyUsage example_cert = KeyUsageDigitalSignature"
  by (simp_all add: example_cert_def example_times)

lemma example_cert_bits: "rsa_BitLen (PublicKey example_cert) = Inr 2048"
proof -
  have "PublicKey example_cert = rsa_PublicKey (2 ^ 2047) 65537"
    unfolding example_cert_def by (simp only: Certificate.simps)
  then have "rsa_BitLen (PublicKey example_cert) = Inr (BitLen (2 ^ 2047))"
    by (simp only: rsa_BitLen_def PublicKey.case)
  then show ?thesis by (simp only: BitLen_pow2) simp
qed

lemma example_classify: "classify example_principal example_cert = Inr example_signals"
proof -
  let ?F = "NewSAKey example_principal example_cert"
  have names: "signals (checkNames ?F) = take 2 example_signals"
    by (simp add: checkNames_def checkName_def Let_def NewSAKey_fields example_cert_fields
        example_principal_def append_signal_fields GAIA_ID_MatchString_def example_signals_def)
  have crypto: "checkCrypto ?F = Inr ?F"
    by (simp add: checkCrypto_def Let_def NewSAKey_fields example_cert_fields example_cert_bits)
  have validity: "signals (CheckValidityPeriod ?F) = drop 2 example_signals"
    by (simp add: CheckValidityPeriod_def Let_def NewSAKey_fields example_cert_fields
        defaultMaxAfter_value Time_Sub_seconds validity_values append_signal_fields example_signals_def)
  have ext: "signals (CheckExtensions ?F) = []"
    by (simp add: CheckExtensions_def Let_def NewSAKey_fields example_cert_fields)
  have "check ?F = Inr (?F\<lparr>signals := take 2 example_signals @ drop 2 example_signals\<rparr>)"
    using check_signals[where k = ?F and S = "[]"]
    by (simp add: NewSAKey_fields crypto names validity ext) (simp add: NewSAKey_def)
  then show ?thesis by (simp add: classify_def)
qed

lemma example_signals_facts:
  "example_signals \<noteq> []" "length example_signals = 3"
  "determineKeyKind_loop '''' example_signals = GOOGLE_PROVIDED_SYSTEM_MANAGED"
  "determineKeyKind_loop '''' (example_signals @ example_signals) = GOOGLE_PROVIDED_SYSTEM_MANAGED"
  by (simp_all add: example_signals_def kinds_distinct)

lemma example_once:
  "determineKeyKind (NewSAKey example_principal example_cert)
     = Inr (GOOGLE_PROVIDED_SYSTEM_MANAGED, example_key)"
proof -
  have "check (NewSAKey example_principal example_cert)
        = Inr ((NewSAKey example_principal example_cert)\<lparr>signals := example_signals\<rparr>)"
    using check_frame[of "NewSAKey example_principal example_cert"]
    by (simp add: NewSAKey_fields example_classify)
  then show ?thesis
    by (simp add: determineKeyKind_def example_signals_facts Let_def example_key_def NewSAKey_def)
qed

lemma example_twice:
  "determineKeyKind_twice (NewSAKey example_principal example_cert)
     = Inr (GOOGLE_PROVIDED_SYSTEM_MANAGED, example_key\<lparr>signals := example_signals @ example_signals\<rparr>)"
proof -
  have "check example_key = Inr (example_key\<lparr>signals := example_signals @ example_signals\<rparr>)"
    using check_frame[of example_key] by (simp add: example_key_def example_classify)
  then have "determineKeyKind example_key
     = Inr (GOOGLE_PROVIDED_SYSTEM_MANAGED, example_key\<lparr>signals := example_signals @ example_signals\<rparr>)"
    by (simp add: determineKeyKind_def example_signals_facts Let_def) (simp add: example_key_def)
  then show ?thesis by (simp add: determineKeyKind_twice_def example_once)
qed

text \<open>
  C9, as stated, fails on the example key: one call of \<open>determineKeyKind\<close> leaves three
  signals, a second call on the same key leaves six.
\<close>

theorem determineKeyKind_twice_accumulates:
  "length (signals_of (determineKeyKind (NewSAKey example_principal example_cert))) = 3
   \<and> length (signals_of (determineKeyKind_twice (NewSAKey example_principal example_cert))) = 6
   \<and> signals_of (determineKeyKind_twice (NewSAKey example_principal example_cert))
       \<noteq> signals_of (determineKeyKind (NewSAKey example_principal example_cert))"
  by (simp add: example_once example_twice signals_of_def example_key_def example_signals_facts)

theorem determineKeyKind_repeated_witness:
  "determineKeyKind (NewSAKey example_principal example_cert)
     = Inr (GOOGLE_PROVIDED_SYSTEM_MANAGED, example_key)
   \<and> determineKeyKind (NewSAKey (serviceAccount example_key) (cert example_key))
     = Inr (GOOGLE_PROVIDED_SYSTEM_MANAGED, example_key)
   \<and> determineKeyKind example_key
     = Inr (GOOGLE_PROVIDED_SYSTEM_MANAGED,
            example_key\<lparr>signals := signals example_key @ signals example_key\<rparr>)"
  using determineKeyKind_repeated[OF example_once] example_once by simp


section \<open>Properties of the fetch phases\<close>

subsection \<open>Fetching the certificates of one principal\<close>


lemma certs_loop_all_or_nothing:
  "(\<exists>m. certs_loop env keys certs = (Some m, None)) \<or> (\<exists>err. certs_loop env keys certs = (None, Some err))"
proof (induction keys arbitrary: certs)
  case Nil
  show ?case by simp
next
  case (Cons kv keys)
  obtain keyId v where kv: "kv = (keyId, v)" by (cases kv)
  show ?case
  proof (cases "pem_Decode env v")
    case (Pair blk rest)
    show ?thesis
    proof (cases blk)
      case None
      with Pair kv show ?thesis by simp
    next
      case (Some block)
      show ?thesis
      proof (cases "x509_ParseCertificate env (Bytes block)")
        case (Inl err)
        with Pair Some kv show ?thesis by simp
      next
        case (Inr parsed)
        show ?thesis
        proof (cases "length rest > 0 \<or> Type block \<noteq> ''CERTIFICATE'' \<or> length (Headers block) > 0")
          case True
          with Pair Some kv show ?thesis by auto
        next
          case False
          with Pair Some kv Inr
          have "certs_loop env (kv # keys) certs = certs_loop env keys (certs(keyId \<mapsto> parsed))"
            by simp
          then show ?thesis using Cons.IH[of "certs(keyId \<mapsto> parsed)"] by (simp only:)
        qed
      qed
    qed
  qed
qed

lemma getServiceAccountKeyCerts_all_or_nothing:
  "(\<exists>m. getServiceAccountKeyCerts env sa = (Some m, None))
   \<or> (\<exists>err. getServiceAccountKeyCerts env sa = (None, Some err))"
  unfolding getServiceAccountKeyCerts_def
  using certs_loop_all_or_nothing
  by (auto split: sum.splits)

lemma certs_loop_malformed:
  assumes "(keyId, v) \<in> set keys"
    and "fst (pem_Decode env v) = None
         \<or> snd (pem_Decode env v) \<noteq> []
         \<or> (\<exists>block. fst (pem_Decode env v) = Some block
               \<and> (Type block \<noteq> ''CERTIFICATE'' \<or> Headers block \<noteq> []
                   \<or> (\<exists>err. x509_ParseCertificate env (Bytes block) = Inl err)))"
  shows "\<exists>err. certs_loop env keys certs = (None, Some err)"
  using assms(1)
proof (induction keys arbitrary: certs)
  case Nil
  then show ?case by simp
next
  case (Cons kv keys)
  obtain keyId' v' where kv: "kv = (keyId', v')" by (cases kv)
  show ?case
  proof (cases "certs_loop env (kv # keys) certs = (None, None) \<or> (\<exists>m. fst (certs_loop env (kv # keys) certs) = Some m)")
    case False
    then show ?thesis using certs_loop_all_or_nothing[of env "kv # keys" certs] by auto
  next
    case True
    with certs_loop_all_or_nothing[of env "kv # keys" certs]
    obtain m where ok: "certs_loop env (kv # keys) certs = (Some m, None)" by auto
    obtain blk rest where dec: "pem_Decode env v' = (blk, rest)" by (cases "pem_Decode env v'")
    from ok dec kv obtain block parsed where
      good: "blk = Some block" "rest = []" "Type block = ''CERTIFICATE''" "Headers block = []"
        "x509_ParseCertificate env (Bytes block) = Inr parsed"
      and rec: "certs_loop env keys (certs(keyId' \<mapsto> parsed)) = (Some m, None)"
      by (auto split: option.splits if_splits sum.splits)
    have "(keyId, v) \<in> set keys"
    proof (rule ccontr)
      assume "(keyId, v) \<notin> set keys"
      with Cons.prems kv have "v = v'" by simp
      with assms(2) dec good show False by auto
    qed
    from Cons.IH[OF this, of "certs(keyId' \<mapsto> parsed)"] rec show ?thesis by (simp only:) simp
  qed
qed

text \<open>
  C10. When the endpoint answers 200 with a JSON object and one of its values is
  malformed (no PEM block decodes, bytes follow the block, the block type is not
  \<open>CERTIFICATE\<close>, the block has headers, or the certificate does not parse),
  \<open>getServiceAccountKeyCerts\<close> returns the nil map and an error, in whatever order the
  keys are visited and however many other keys are well-formed.
\<close>

theorem getServiceAccountKeyCerts_one_bad_key:
  assumes "http_Get env (''https://www.googleapis.com/service_accounts/v1/metadata/x509/'' @ sa) = Inr resp"
    and "StatusCode resp = 200" and "Body resp = Inr body"
    and "json_Unmarshal env body = Inr keys"
    and "(keyId, v) \<in> set keys"
    and "fst (pem_Decode env v) = None
         \<or> snd (pem_Decode env v) \<noteq> []
         \<or> (\<exists>block. fst (pem_Decode env v) = Some block
               \<and> (Type block \<noteq> ''CERTIFICATE'' \<or> Headers block \<noteq> []
                   \<or> (\<exists>err. x509_ParseCertificate env (Bytes block) = Inl err)))"
  shows "\<exists>err. getServiceAccountKeyCerts env sa = (None, Some err)"
  using certs_loop_malformed[OF assms(5,6), of Map.empty] assms(1-4)
  by (simp add: getServiceAccountKeyCerts_def)

lemma example_env_fields:
  "http_Get example_env (''https://www.googleapis.com/service_accounts/v1/metadata/x509/'' @ example_principal)
     = Inr \<lparr>StatusCode = 200, Body = Inr ''one-key''\<rparr>"
  "http_Get example_env (''https://www.googleapis.com/service_accounts/v1/metadata/x509/'' @ example_denied)
     = Inr \<lparr>StatusCode = 200, Body = Inr ''one-key''\<rparr>"
  "http_Get example_env (''https://www.googleapis.com/service_accounts/v1/metadata/x509/'' @ example_partly)
     = Inr \<lparr>StatusCode = 200, Body = Inr ''two-keys''\<rparr>"
  "http_Get example_env (''https://www.googleapis.com/service_accounts/v1/metadata/x509/'' @ example_missing)
     = Inr \<lparr>StatusCode = 404, Body = Inr ''''\<rparr>"
  "json_Unmarshal example_env ''one-key'' = Inr [(''key1'', ''pem1'')]"
  "json_Unmarshal example_env ''two-keys'' = Inr [(''key1'', ''pem1''), (''key2'', ''pem2'')]"
  "pem_Decode example_env ''pem1'' = (Some \<lparr>Type = ''CERTIFICATE'', Headers = [], Bytes = ''der1''\<rparr>, '''')"
  "pem_Decode example_env ''pem2'' = (Some \<lparr>Type = ''PUBLIC KEY'', Headers = [], Bytes = ''der2''\<rparr>, '''')"
  "x509_ParseCertificate example_env ''der1'' = Inr example_cert"
  "sem_Acquire example_env sa = None"
  "limiter_Wait example_env sa = None"
  "iam_NewService example_env = None"
  by (simp_all add: example_env_def example_principal_def example_denied_def example_partly_def
      example_missing_def)

lemma example_fetches:
  "getServiceAccountKeyCerts example_env example_principal = (Some [''key1'' \<mapsto> example_cert], None)"
  "getServiceAccountKeyCerts example_env example_denied = (Some [''key1'' \<mapsto> example_cert], None)"
  "getServiceAccountKeyCerts example_env example_partly = (None, Some (ErrBlockType ''PUBLIC KEY''))"
  "getServiceAccountKeyCerts example_env example_missing = (None, Some ErrNotFound)"
  unfolding getServiceAccountKeyCerts_def example_env_fields
  by (simp_all add: example_env_fields)

theorem getServiceAccountKeyCerts_one_bad_key_witness:
  "getServiceAccountKeyCerts example_env example_partly = (None, Some (ErrBlockType ''PUBLIC KEY''))"
proof -
  have bad: "fst (pem_Decode example_env ''pem2'') = None
         \<or> snd (pem_Decode example_env ''pem2'') \<noteq> []
         \<or> (\<exists>block. fst (pem_Decode example_env ''pem2'') = Some block
               \<and> (Type block \<noteq> ''CERTIFICATE'' \<or> Headers block \<noteq> []
                   \<or> (\<exists>err. x509_ParseCertificate example_env (Bytes block) = Inl err)))"
    by (simp add: example_env_fields)
  have "(''key2'', ''pem2'') \<in> set [(''key1'', ''pem1''), (''key2'', ''pem2'')]" by simp
  from getServiceAccountKeyCerts_one_bad_key[OF example_env_fields(3) _ _ example_env_fields(6) this bad]
  obtain err where "getServiceAccountKeyCerts example_env example_partly = (None, Some err)"
    by auto
  then show ?thesis by (simp add: example_fetches)
qed


subsection \<open>Schedules and positional results\<close>


lemma fold_update_length:
  "length (fold (\<lambda>i r. r[i := g i]) sched res) = length res"
  by (induction sched arbitrary: res) simp_all

lemma fold_update_nth:
  "j < length res \<Longrightarrow>
   fold (\<lambda>i r. r[i := g i]) sched res ! j = (if j \<in> set sched then g j else res ! j)"
proof (induction sched arbitrary: res)
  case Nil
  show ?case by simp
next
  case (Cons i sched)
  from Cons.prems have "j < length (res[i := g i])" by simp
  from Cons.IH[OF this] Cons.prems show ?case by (auto simp: nth_list_update)
qed

lemma replicate_update_same: "(replicate n x)[i := x] = replicate n x"
  by (cases "i < n") (auto simp: list_eq_iff_nth_eq nth_list_update)

lemma fold_update_None:
  "fold (\<lambda>i e. e[i := None]) sched (replicate n None) = replicate n None"
  by (induction sched) (simp_all add: replicate_update_same)

lemma errors_Join_None_iff: "errors_Join errs = None \<longleftrightarrow> (\<forall>e\<in>set errs. e = None)"
proof -
  have "List.map_filter (\<lambda>e. e) errs = [] \<longleftrightarrow> (\<forall>e\<in>set errs. e = None)"
    by (induction errs) (auto split: option.splits)
  then show ?thesis by (auto simp: errors_Join_def split: list.splits)
qed

lemma schedule_set:
  "mset sched = mset [0..<n] \<Longrightarrow> set sched = {0..<n}"
  using mset_eq_setD by fastforce

lemma schedule_items:
  assumes "mset sched = mset [0..<length items]"
  shows "mset (filter P (map ((!) items) sched)) = mset (filter P items)"
proof -
  have "mset (map ((!) items) sched) = mset (map ((!) items) [0..<length items])"
    using assms by (simp only: mset_map)
  then have "mset (map ((!) items) sched) = mset items" by (simp add: map_nth)
  then show ?thesis by (simp only: mset_filter)
qed

subsection \<open>The public fetch phase\<close>

lemma observedTask_step:
  assumes "sem_Acquire env sa = None"
  shows "observedTask env sa k
     = Inr ((observed_result env sa, None), if fetch_fails env sa then addBadSA k sa else k)"
  using assms getServiceAccountKeyCerts_all_or_nothing[of env sa]
  by (auto simp: observedTask_def observed_result_def fetch_fails_def)

lemma run_tasks_observed:
  assumes "\<forall>i\<in>set sched. i < length ids" and "\<forall>sa\<in>set ids. sem_Acquire env sa = None"
  shows "run_tasks ids (observedTask env) sched res errs k
     = Inr (fold (\<lambda>i r. r[i := observed_result env (ids ! i)]) sched res,
            fold (\<lambda>i e. e[i := None]) sched errs,
            k\<lparr>badSAs := badSAs k @ filter (fetch_fails env) (map ((!) ids) sched)\<rparr>)"
  using assms(1)
proof (induction sched arbitrary: res errs k)
  case Nil
  show ?case by simp
next
  case (Cons i sched)
  have acq: "sem_Acquire env (ids ! i) = None" using Cons.prems assms(2) by simp
  have rest: "\<forall>i\<in>set sched. i < length ids" using Cons.prems by simp
  show ?case
    by (simp add: observedTask_step[OF acq] Cons.IH[OF rest] addBadSA_def)
qed

lemma NewKeyCollection_fields:
  "serviceAccountIDs (NewKeyCollection ids) = ids" "observedKeys (NewKeyCollection ids) = []"
  "groundTruthKeys (NewKeyCollection ids) = []" "badSAs (NewKeyCollection ids) = []"
  by (simp_all add: NewKeyCollection_def)

lemma FetchObservedKeys_result:
  assumes perm: "mset sched = mset [0..<length (serviceAccountIDs k)]"
    and acq: "\<forall>sa\<in>set (serviceAccountIDs k). sem_Acquire env sa = None"
  shows "FetchObservedKeys env sched k
     = Inr (None,
            k\<lparr>observedKeys := map (observed_result env) (serviceAccountIDs k),
              badSAs := badSAs k @ filter (fetch_fails env) (map ((!) (serviceAccountIDs k)) sched)\<rparr>)"
proof -
  define ids where "ids = serviceAccountIDs k"
  define k1 where "k1 = k\<lparr>observedKeys := replicate (length ids) None\<rparr>"
  have ss: "set sched = {0..<length ids}" using schedule_set[OF perm] by (simp add: ids_def)
  then have bound: "\<forall>i\<in>set sched. i < length ids" by simp
  have acq': "\<forall>sa\<in>set ids. sem_Acquire env sa = None" using acq by (simp add: ids_def)
  define res where "res = fold (\<lambda>i r. r[i := observed_result env (ids ! i)]) sched (replicate (length ids) None)"
  have len: "length res = length ids" by (simp add: res_def fold_update_length)
  have "res ! j = map (observed_result env) ids ! j" if "j < length ids" for j
    using that ss fold_update_nth[of j "replicate (length ids) None" "\<lambda>i. observed_result env (ids ! i)" sched]
    by (simp add: res_def)
  with len have res: "res = map (observed_result env) ids"
    by (simp add: list_eq_iff_nth_eq)
  have run: "run_tasks ids (observedTask env) sched (replicate (length ids) None)
        (replicate (length ids) None) k1
     = Inr (res, replicate (length ids) None,
            k1\<lparr>badSAs := badSAs k1 @ filter (fetch_fails env) (map ((!) ids) sched)\<rparr>)"
    unfolding res_def using run_tasks_observed[OF bound acq'] by (simp add: fold_update_None)
  have join: "errors_Join (replicate (length ids) None) = None"
    by (simp add: errors_Join_None_iff)
  have "parllelMap None ids (observedTask env) sched k1
     = Inr ((Some res, None), k1\<lparr>badSAs := badSAs k1 @ filter (fetch_fails env) (map ((!) ids) sched)\<rparr>)"
    by (simp add: parllelMap_def run join)
  then show ?thesis
    unfolding FetchObservedKeys_def Let_def ids_def[symmetric] k1_def[symmetric]
    by (simp add: k1_def ids_def[symmetric] res)
qed

text \<open>
  C2. Fetch isolation. Take any list of principals, any order in which the tasks take
  effect, and a world in which \<open>inflight.Acquire\<close> succeeds (its context is
  \<open>context.Background()\<close>, which is never done). Then \<open>FetchObservedKeys\<close> on a new
  collection returns a nil error; the bad principals are, as a multiset, exactly the
  principals whose fetch fails (so there are K of them when K fetches fail); every
  position of a failed principal holds the nil map and the principal is bad; every other
  position holds the certificate map that the fetch returned and its principal is not
  bad.
\<close>

theorem FetchObservedKeys_isolation:
  assumes "mset sched = mset [0..<length ids]"
    and "\<forall>sa\<in>set ids. sem_Acquire env sa = None"
  shows "\<exists>k'. FetchObservedKeys env sched (NewKeyCollection ids) = Inr (None, k')
     \<and> serviceAccountIDs k' = ids
     \<and> mset (badSAs k') = mset (filter (fetch_fails env) ids)
     \<and> length (badSAs k') = length (filter (fetch_fails env) ids)
     \<and> length (observedKeys k') = length ids
     \<and> (\<forall>i<length ids.
           if fetch_fails env (ids ! i)
           then isBadSA k' (ids ! i) \<and> observedKeys k' ! i = None
           else \<not> isBadSA k' (ids ! i)
                \<and> (\<exists>m. getServiceAccountKeyCerts env (ids ! i) = (Some m, None)
                        \<and> observedKeys k' ! i = Some m))"
proof -
  define k' where "k' = (NewKeyCollection ids)
      \<lparr>observedKeys := map (observed_result env) ids,
       badSAs := filter (fetch_fails env) (map ((!) ids) sched)\<rparr>"
  have run: "FetchObservedKeys env sched (NewKeyCollection ids) = Inr (None, k')"
    using FetchObservedKeys_result[of sched "NewKeyCollection ids" env] assms
    by (simp add: NewKeyCollection_fields k'_def)
  have bad_mset: "mset (badSAs k') = mset (filter (fetch_fails env) ids)"
    using schedule_items[OF assms(1)] by (simp add: k'_def)
  then have bad_len: "length (badSAs k') = length (filter (fetch_fails env) ids)"
    by (metis size_mset)
  have bad_set: "set (badSAs k') = {sa \<in> set ids. fetch_fails env sa}"
    using mset_eq_setD[OF bad_mset] by simp
  have each: "if fetch_fails env (ids ! i)
           then isBadSA k' (ids ! i) \<and> observedKeys k' ! i = None
           else \<not> isBadSA k' (ids ! i)
                \<and> (\<exists>m. getServiceAccountKeyCerts env (ids ! i) = (Some m, None)
                        \<and> observedKeys k' ! i = Some m)" if "i < length ids" for i
  proof (cases "fetch_fails env (ids ! i)")
    case True
    with that bad_set show ?thesis
      by (simp add: isBadSA_def slices_Contains_iff) (simp add: k'_def observed_result_def)
  next
    case False
    with getServiceAccountKeyCerts_all_or_nothing[of env "ids ! i"]
    obtain m where "getServiceAccountKeyCerts env (ids ! i) = (Some m, None)"
      by (auto simp: fetch_fails_def)
    with False that bad_set show ?thesis
      by (simp add: isBadSA_def slices_Contains_iff) (simp add: k'_def observed_result_def)
  qed
  have shape: "serviceAccountIDs k' = ids" "length (observedKeys k') = length ids"
    by (simp_all add: k'_def NewKeyCollection_fields)
  from run shape bad_mset bad_len each show ?thesis by blast
qed

lemma example_fetch_fails:
  "\<not> fetch_fails example_env example_principal" "fetch_fails example_env example_partly"
  "fetch_fails example_env example_missing" "\<not> fetch_fails example_env example_denied"
  by (simp_all add: fetch_fails_def example_fetches)

lemma example_observed:
  "observed_result example_env example_principal = Some [''key1'' \<mapsto> example_cert]"
  "observed_result example_env example_partly = None"
  "observed_result example_env example_missing = None"
  "observed_result example_env example_denied = Some [''key1'' \<mapsto> example_cert]"
  by (simp_all add: observed_result_def example_fetch_fails example_fetches)

theorem FetchObservedKeys_isolation_witness:
  "FetchObservedKeys example_env [2, 0, 3, 1]
     (NewKeyCollection [example_principal, example_partly, example_missing, example_denied])
   = Inr (None,
       \<lparr>serviceAccountIDs = [example_principal, example_partly, example_missing, example_denied],
        observedKeys = [Some [''key1'' \<mapsto> example_cert], None, None, Some [''key1'' \<mapsto> example_cert]],
        groundTruthKeys = [],
        badSAs = [example_missing, example_partly]\<rparr>)"
proof -
  let ?ids = "[example_principal, example_partly, example_missing, example_denied]"
  have perm: "mset [2, 0, 3, 1] = mset [0..<length ?ids]"
    by (simp add: numeral_2_eq_2 numeral_3_eq_3)
  have acq: "\<forall>sa\<in>set ?ids. sem_Acquire example_env sa = None" by (simp add: example_env_fields)
  from FetchObservedKeys_isolation[OF perm acq]
  obtain k' where run: "FetchObservedKeys example_env [2, 0, 3, 1] (NewKeyCollection ?ids) = Inr (None, k')"
    by blast
  have "k' = (NewKeyCollection ?ids)
      \<lparr>observedKeys := map (observed_result example_env) ?ids,
       badSAs := filter (fetch_fails example_env) (map ((!) ?ids) [2, 0, 3, 1])\<rparr>"
    using run FetchObservedKeys_result[of "[2, 0, 3, 1]" "NewKeyCollection ?ids" example_env] perm acq
    by (simp add: NewKeyCollection_fields)
  then have "k' = \<lparr>serviceAccountIDs = ?ids,
        observedKeys = [Some [''key1'' \<mapsto> example_cert], None, None, Some [''key1'' \<mapsto> example_cert]],
        groundTruthKeys = [],
        badSAs = [example_missing, example_partly]\<rparr>"
    by (simp add: NewKeyCollection_def example_observed example_fetch_fails)
  with run show ?thesis by simp
qed




subsection \<open>The ground-truth phase\<close>

lemma groundTruthTask_bad:
  "isBadSA k sa \<Longrightarrow> groundTruthTask env sa (k, calls) = Inr ((None, None), (k, calls))"
  by (simp add: groundTruthTask_def)

lemma groundTruthTask_step:
  assumes "api_called env k sa \<longrightarrow> (\<exists>r. getServiceAccountKeys env sa = Inr r)"
    and "badSAs k1 = badSAs k"
  shows "groundTruthTask env sa (k1, calls)
     = Inr (groundTruth_result env k sa, (k1, calls @ (if api_called env k sa then [sa] else [])))"
proof -
  have bad: "isBadSA k1 sa = isBadSA k sa" using assms(2) by (simp add: isBadSA_def)
  show ?thesis
  proof (cases "api_called env k sa")
    case True
    with assms(1) obtain r where "getServiceAccountKeys env sa = Inr r" by blast
    with True show ?thesis
      by (simp add: groundTruthTask_def groundTruth_result_def api_called_def bad)
  next
    case False
    then show ?thesis
      by (auto simp: groundTruthTask_def groundTruth_result_def api_called_def bad split: option.splits)
  qed
qed

lemma groundTruthTask_error_iff:
  assumes "api_called env k sa \<longrightarrow> (\<exists>r. getServiceAccountKeys env sa = Inr r)"
  shows "(\<exists>r e st. groundTruthTask env sa (k, calls) = Inr ((r, Some e), st))
     \<longleftrightarrow> snd (groundTruth_result env k sa) \<noteq> None"
  using groundTruthTask_step[OF assms refl, of calls]
  by (cases "groundTruth_result env k sa") auto

lemma run_tasks_groundTruth:
  assumes "\<forall>i\<in>set sched. i < length ids"
    and "\<forall>sa\<in>set ids. api_called env k sa \<longrightarrow> (\<exists>r. getServiceAccountKeys env sa = Inr r)"
    and "badSAs k1 = badSAs k"
  shows "run_tasks ids (groundTruthTask env) sched res errs (k1, calls)
     = Inr (fold (\<lambda>i r. r[i := fst (groundTruth_result env k (ids ! i))]) sched res,
            fold (\<lambda>i e. e[i := snd (groundTruth_result env k (ids ! i))]) sched errs,
            (k1, calls @ filter (api_called env k) (map ((!) ids) sched)))"
  using assms(1)
proof (induction sched arbitrary: res errs calls)
  case Nil
  show ?case by simp
next
  case (Cons i sched)
  have "ids ! i \<in> set ids" using Cons.prems by simp
  with assms(2) have np: "api_called env k (ids ! i) \<longrightarrow> (\<exists>r. getServiceAccountKeys env (ids ! i) = Inr r)"
    by blast
  have rest: "\<forall>i\<in>set sched. i < length ids" using Cons.prems by simp
  show ?case
    by (cases "groundTruth_result env k (ids ! i)")
       (simp add: groundTruthTask_step[OF np assms(3)] Cons.IH[OF rest])
qed

lemma FetchGroundTruthKeys_result:
  fixes k :: KeyCollection
  defines "ids \<equiv> serviceAccountIDs k"
  assumes perm: "mset sched = mset [0..<length ids]"
    and svc: "iam_NewService env = None"
    and nopanic: "\<forall>sa\<in>set ids. api_called env k sa \<longrightarrow> (\<exists>r. getServiceAccountKeys env sa = Inr r)"
  shows "FetchGroundTruthKeys env sched (k, calls)
     = Inr (case errors_Join (map (\<lambda>sa. snd (groundTruth_result env k sa)) ids) of
              Some e \<Rightarrow> (Some (ErrGCPAPI e),
                          (k\<lparr>groundTruthKeys := replicate (length ids) None\<rparr>,
                           calls @ filter (api_called env k) (map ((!) ids) sched)))
            | None \<Rightarrow> (None,
                        (k\<lparr>groundTruthKeys := map (\<lambda>sa. fst (groundTruth_result env k sa)) ids\<rparr>,
                         calls @ filter (api_called env k) (map ((!) ids) sched))))"
proof -
  define k1 where "k1 = k\<lparr>groundTruthKeys := replicate (length ids) None\<rparr>"
  have k1: "badSAs k1 = badSAs k" "serviceAccountIDs k1 = ids" by (simp_all add: k1_def ids_def)
  have ss: "set sched = {0..<length ids}" using schedule_set[OF perm] .
  then have bound: "\<forall>i\<in>set sched. i < length ids" by simp
  define res where "res = fold (\<lambda>i r. r[i := fst (groundTruth_result env k (ids ! i))]) sched
      (replicate (length ids) None)"
  define errs where "errs = fold (\<lambda>i e. e[i := snd (groundTruth_result env k (ids ! i))]) sched
      (replicate (length ids) None)"
  have "length res = length ids" by (simp add: res_def fold_update_length)
  moreover have "res ! j = map (\<lambda>sa. fst (groundTruth_result env k sa)) ids ! j" if "j < length ids" for j
    using that ss
      fold_update_nth[of j "replicate (length ids) None" "\<lambda>i. fst (groundTruth_result env k (ids ! i))" sched]
    by (simp add: res_def)
  ultimately have res: "res = map (\<lambda>sa. fst (groundTruth_result env k sa)) ids"
    by (simp add: list_eq_iff_nth_eq)
  have "length errs = length ids" by (simp add: errs_def fold_update_length)
  moreover have "errs ! j = map (\<lambda>sa. snd (groundTruth_result env k sa)) ids ! j" if "j < length ids" for j
    using that ss
      fold_update_nth[of j "replicate (length ids) None" "\<lambda>i. snd (groundTruth_result env k (ids ! i))" sched]
    by (simp add: errs_def)
  ultimately have errs: "errs = map (\<lambda>sa. snd (groundTruth_result env k sa)) ids"
    by (simp add: list_eq_iff_nth_eq)
  have run: "run_tasks ids (groundTruthTask env) sched (replicate (length ids) None)
        (replicate (length ids) None) (k1, calls)
     = Inr (res, errs, (k1, calls @ filter (api_called env k) (map ((!) ids) sched)))"
    unfolding res_def errs_def by (rule run_tasks_groundTruth[OF bound nopanic k1(1)])
  show ?thesis
    unfolding FetchGroundTruthKeys_def Let_def prod.case ids_def[symmetric] k1_def[symmetric] k1(2)
    by (cases "errors_Join (map (\<lambda>sa. snd (groundTruth_result env k sa)) ids)")
       (simp_all add: svc parllelMap_def run errs res, simp_all add: k1_def)
qed

text \<open>
  C6. The ground-truth phase, for any key collection, any order in which the tasks take
  effect and a world in which the IAM client can be made and no key name makes a task
  panic. The task of a principal already marked bad returns the nil map and a nil error
  and leaves the shared state as it was, the list of API calls included; no principal in
  the list of API calls of the phase is bad. If the task of some principal returns a
  non-nil error, \<open>FetchGroundTruthKeys\<close> returns a non-nil error, whatever the other
  tasks return. When it returns a nil error, the positions of the bad principals hold
  the nil map.
\<close>

theorem FetchGroundTruthKeys_skips_and_propagates:
  assumes perm: "mset sched = mset [0..<length (serviceAccountIDs k)]"
    and svc: "iam_NewService env = None"
    and nopanic: "\<forall>sa\<in>set (serviceAccountIDs k).
        \<not> isBadSA k sa \<and> limiter_Wait env sa = None \<longrightarrow> (\<exists>r. getServiceAccountKeys env sa = Inr r)"
  shows "\<exists>err k' calls. FetchGroundTruthKeys env sched (k, []) = Inr (err, (k', calls))
     \<and> badSAs k' = badSAs k
     \<and> (\<forall>sa cs. isBadSA k sa \<longrightarrow> groundTruthTask env sa (k, cs) = Inr ((None, None), (k, cs)))
     \<and> (\<forall>sa\<in>set calls. \<not> isBadSA k sa)
     \<and> ((\<exists>sa\<in>set (serviceAccountIDs k). \<exists>cs r e st.
            groundTruthTask env sa (k, cs) = Inr ((r, Some e), st)) \<longrightarrow> err \<noteq> None)
     \<and> (err = None \<longrightarrow>
          length (groundTruthKeys k') = length (serviceAccountIDs k)
          \<and> (\<forall>i<length (serviceAccountIDs k).
                isBadSA k (serviceAccountIDs k ! i) \<longrightarrow> groundTruthKeys k' ! i = None))"
proof -
  define ids where "ids = serviceAccountIDs k"
  have np: "\<forall>sa\<in>set ids. api_called env k sa \<longrightarrow> (\<exists>r. getServiceAccountKeys env sa = Inr r)"
    using nopanic by (simp add: api_called_def ids_def)
  define joined where "joined = errors_Join (map (\<lambda>sa. snd (groundTruth_result env k sa)) ids)"
  define calls where "calls = filter (api_called env k) (map ((!) ids) sched)"
  define err where "err = (case joined of Some e \<Rightarrow> Some (ErrGCPAPI e) | None \<Rightarrow> None)"
  define k' where "k' = (case joined of
       Some e \<Rightarrow> k\<lparr>groundTruthKeys := replicate (length ids) None\<rparr>
     | None \<Rightarrow> k\<lparr>groundTruthKeys := map (\<lambda>sa. fst (groundTruth_result env k sa)) ids\<rparr>)"
  have run: "FetchGroundTruthKeys env sched (k, []) = Inr (err, (k', calls))"
    using FetchGroundTruthKeys_result[OF perm svc np[unfolded ids_def], of "[]"]
    by (cases joined) (simp_all add: ids_def[symmetric] joined_def[symmetric] err_def k'_def calls_def)
  have bad: "badSAs k' = badSAs k" by (cases joined) (simp_all add: k'_def)
  have skip: "\<forall>sa cs. isBadSA k sa \<longrightarrow> groundTruthTask env sa (k, cs) = Inr ((None, None), (k, cs))"
    by (simp add: groundTruthTask_bad)
  have nocall: "\<forall>sa\<in>set calls. \<not> isBadSA k sa"
    by (simp add: calls_def api_called_def)
  have propagated: "err \<noteq> None"
    if "\<exists>sa\<in>set ids. \<exists>cs r e st. groundTruthTask env sa (k, cs) = Inr ((r, Some e), st)"
  proof -
    from that obtain sa cs r e st where sa: "sa \<in> set ids"
      and t: "groundTruthTask env sa (k, cs) = Inr ((r, Some e), st)" by blast
    from np sa have "api_called env k sa \<longrightarrow> (\<exists>r. getServiceAccountKeys env sa = Inr r)" by blast
    from groundTruthTask_error_iff[OF this, of cs] t
    have "snd (groundTruth_result env k sa) \<noteq> None" by blast
    with sa have "joined \<noteq> None"
      unfolding joined_def errors_Join_None_iff by force
    then show ?thesis by (auto simp: err_def)
  qed
  have ok: "length (groundTruthKeys k') = length ids
      \<and> (\<forall>i<length ids. isBadSA k (ids ! i) \<longrightarrow> groundTruthKeys k' ! i = None)" if "err = None"
  proof -
    from that have "joined = None" by (cases joined) (simp_all add: err_def)
    then have "groundTruthKeys k' = map (\<lambda>sa. fst (groundTruth_result env k sa)) ids"
      by (simp add: k'_def)
    then show ?thesis by (simp add: groundTruth_result_def)
  qed
  from run bad skip nocall propagated ok show ?thesis unfolding ids_def by blast
qed

lemma example_principals_distinct:
  "example_principal \<noteq> example_partly" "example_principal \<noteq> example_missing"
  "example_denied \<noteq> example_partly" "example_denied \<noteq> example_missing"
  "example_principal \<noteq> example_denied"
  by (simp_all add: example_principal_def example_partly_def example_missing_def example_denied_def)

lemma example_bad:
  "\<not> isBadSA example_collection example_principal" "isBadSA example_collection example_partly"
  "isBadSA example_collection example_missing" "\<not> isBadSA example_collection example_denied"
  using example_principals_distinct
  by (auto simp: isBadSA_def slices_Contains_iff example_collection_def)

lemma example_key_name:
  "strings_SplitAfter ''projects/my-project/serviceAccounts/scanner/keys/key1'' ''keys/''
     = [''projects/my-project/serviceAccounts/scanner/keys/'', ''key1'']"
  by (simp add: strings_SplitAfter_def)

lemma example_iam:
  "getServiceAccountKeys example_env example_principal
     = Inr (Some [''key1'' \<mapsto> \<lparr>Name = ''projects/my-project/serviceAccounts/scanner/keys/key1'',
                                KeyOrigin = ''GOOGLE_PROVIDED'', KeyType = ''SYSTEM_MANAGED''\<rparr>], None)"
  "getServiceAccountKeys example_env example_denied
     = Inr (None, Some (ExternalError ''googleapi: Error 403''))"
proof -
  have l: "iam_Keys_List example_env (''projects/-/serviceAccounts/'' @ example_principal)
      = Inr [\<lparr>Name = ''projects/my-project/serviceAccounts/scanner/keys/key1'',
               KeyOrigin = ''GOOGLE_PROVIDED'', KeyType = ''SYSTEM_MANAGED''\<rparr>]"
    "iam_Keys_List example_env (''projects/-/serviceAccounts/'' @ example_denied)
      = Inl (ExternalError ''googleapi: Error 403'')"
    by (simp_all add: example_env_def example_principal_def example_denied_def)
  show "getServiceAccountKeys example_env example_principal
     = Inr (Some [''key1'' \<mapsto> \<lparr>Name = ''projects/my-project/serviceAccounts/scanner/keys/key1'',
                                KeyOrigin = ''GOOGLE_PROVIDED'', KeyType = ''SYSTEM_MANAGED''\<rparr>], None)"
    unfolding getServiceAccountKeys_def l by (simp add: example_key_name Let_def)
  show "getServiceAccountKeys example_env example_denied
     = Inr (None, Some (ExternalError ''googleapi: Error 403''))"
    unfolding getServiceAccountKeys_def l by simp
qed

theorem FetchGroundTruthKeys_skips_and_propagates_witness:
  "FetchGroundTruthKeys example_env [3, 1, 0, 2] (example_collection, [])
   = Inr (Some (ErrGCPAPI (JoinError [ExternalError ''googleapi: Error 403''])),
          (example_collection\<lparr>groundTruthKeys := [None, None, None, None]\<rparr>,
           [example_denied, example_principal]))"
proof -
  have ids: "serviceAccountIDs example_collection
      = [example_principal, example_partly, example_missing, example_denied]"
    by (simp add: example_collection_def)
  have perm: "mset [3, 1, 0, 2] = mset [0..<length (serviceAccountIDs example_collection)]"
    by (simp add: ids numeral_2_eq_2 numeral_3_eq_3)
  have svc: "iam_NewService example_env = None" by (simp add: example_env_fields)
  have nopanic: "\<forall>sa\<in>set (serviceAccountIDs example_collection).
        \<not> isBadSA example_collection sa \<and> limiter_Wait example_env sa = None
          \<longrightarrow> (\<exists>r. getServiceAccountKeys example_env sa = Inr r)"
    by (simp add: ids example_bad example_iam)
  have np: "\<forall>sa\<in>set (serviceAccountIDs example_collection).
        api_called example_env example_collection sa \<longrightarrow> (\<exists>r. getServiceAccountKeys example_env sa = Inr r)"
    using nopanic by (simp add: api_called_def)
  have results: "map (\<lambda>sa. snd (groundTruth_result example_env example_collection sa))
        (serviceAccountIDs example_collection)
      = [None, None, None, Some (ExternalError ''googleapi: Error 403'')]"
    by (simp add: ids groundTruth_result_def example_bad example_env_fields example_iam)
  have called: "filter (api_called example_env example_collection)
        (map ((!) (serviceAccountIDs example_collection)) [3, 1, 0, 2])
      = [example_denied, example_principal]"
    by (simp add: ids api_called_def example_bad example_env_fields)
  have eval: "FetchGroundTruthKeys example_env [3, 1, 0, 2] (example_collection, [])
   = Inr (Some (ErrGCPAPI (JoinError [ExternalError ''googleapi: Error 403''])),
          (example_collection\<lparr>groundTruthKeys := [None, None, None, None]\<rparr>,
           [example_denied, example_principal]))"
    unfolding FetchGroundTruthKeys_result[OF perm svc np, of "[]"] results called
    by (simp add: errors_Join_def List.map_filter_simps ids numeral_3_eq_3)
  from FetchGroundTruthKeys_skips_and_propagates[OF perm svc nopanic]
  obtain err k' calls where
    run: "FetchGroundTruthKeys example_env [3, 1, 0, 2] (example_collection, []) = Inr (err, (k', calls))"
    and "\<forall>sa\<in>set calls. \<not> isBadSA example_collection sa"
    by blast
  with eval show ?thesis by simp
qed


end
